theory Spec2Isabelle
  imports Complex_Main "HOL-Library.Log_Nat"
begin

section \<open>Ent AntiSpam: data model\<close>

text \<open>
  The plugin \<^verbatim>\<open>ent_antispam.py\<close> watches the server's frame counter and, when too few
  frames were rendered during one interval, looks for piles of moving entities and
  removes or freezes their members according to an ordered rule list.

  Exceptions of the Python code are values of \<open>py_error\<close>; a function that can raise
  returns \<open>py_error + 'a\<close> with \<open>Inl\<close> for the exception.
\<close>

datatype py_error = KeyError | ValueError | AttributeError | ParsingError
  | FileNotFoundError | JSONDecodeError | ZeroDivisionError | OverflowError

text \<open>
  The host's physics object of an entity, by the four properties the plugin reads:
  \<^verbatim>\<open>is_static()\<close>, \<^verbatim>\<open>collision_enabled\<close>, \<^verbatim>\<open>asleep\<close> and \<^verbatim>\<open>motion_enabled\<close>.
\<close>

record physics_object =
  is_static :: bool
  collision_enabled :: bool
  asleep :: bool
  motion_enabled :: bool

text \<open>
  An entity of the host, by the attributes the plugin reads. \<open>'v\<close> is the host's vector
  type of \<^verbatim>\<open>entity.origin\<close>; \<^verbatim>\<open>entity.physics_object\<close> is \<^verbatim>\<open>None\<close> for an entity
  without a physics representation.
\<close>

record 'v entity =
  index :: int
  classname :: string
  origin :: 'v
  physics_object :: "physics_object option"

text \<open>
  One element of \<^verbatim>\<open>entity_actions\<close>: a JSON object with the string members
  \<^verbatim>\<open>"classname"\<close> (here \<open>rule_classname\<close>, since \<open>classname\<close> is the entity's field)
  and \<^verbatim>\<open>"action"\<close>.
\<close>

record rule =
  rule_classname :: string
  action :: string

text \<open>
  The calls the plugin makes on the host to change an entity: \<^verbatim>\<open>entity.remove()\<close> and
  \<^verbatim>\<open>entity.physics_object.motion_enabled = False\<close>. Each function that acts on entities
  returns the calls it made, in order.
\<close>

datatype 'v host_call = Remove_call "'v entity" | Freeze_call "'v entity"

section \<open>String helpers of Python\<close>

definition startswith :: "string \<Rightarrow> string \<Rightarrow> bool" where
  "startswith s p = (take (length p) s = p)"

definition endswith :: "string \<Rightarrow> string \<Rightarrow> bool" where
  "endswith s suf = (length suf \<le> length s \<and> drop (length s - length suf) s = suf)"

section \<open>The rule engine: \<^verbatim>\<open>handle_entity\<close>\<close>

text \<open>
  The loop \<^verbatim>\<open>for rule in entity_actions\<close> of \<^verbatim>\<open>handle_entity\<close>, as recursion on the
  rule list. \<^verbatim>\<open>continue\<close> is the recursive call; \<^verbatim>\<open>break\<close> leaves the loop for the
  final \<^verbatim>\<open>return False\<close>. The slice \<^verbatim>\<open>rule['classname'][:-1]\<close> is \<open>butlast\<close>.
  The freeze branch reads \<^verbatim>\<open>entity.physics_object\<close> and sets an attribute of it, which
  raises AttributeError when it is \<^verbatim>\<open>None\<close>.
\<close>

fun handle_entity :: "rule list \<Rightarrow> 'v entity \<Rightarrow> py_error + bool \<times> 'v host_call list" where
  "handle_entity [] entity = Inr (False, [])"
| "handle_entity (rule # rules) entity =
     (if (if endswith (rule_classname rule) ''*''
          then \<not> startswith (classname entity) (butlast (rule_classname rule))
          else classname entity \<noteq> rule_classname rule)
      then handle_entity rules entity
      else if action rule = ''remove'' then Inr (True, [Remove_call entity])
      else if action rule = ''freeze'' then
        (case physics_object entity of
           None \<Rightarrow> Inl AttributeError
         | Some physics_obj \<Rightarrow> Inr (True, [Freeze_call entity]))
      else Inr (False, []))"

section \<open>\<^verbatim>\<open>is_static_entity\<close>\<close>

definition is_static_entity :: "'v entity \<Rightarrow> bool" where
  "is_static_entity entity =
     (case physics_object entity of
        None \<Rightarrow> True
      | Some physics_obj \<Rightarrow>
          is_static physics_obj \<or> \<not> collision_enabled physics_obj \<or>
          asleep physics_obj \<or> \<not> motion_enabled physics_obj)"

section \<open>Configuration\<close>

text \<open>
  \<^verbatim>\<open>config\<close> is a \<^verbatim>\<open>ConfigParser\<close>: sections by name, each a list of options and their
  string values, as \<^verbatim>\<open>config[section][option]\<close> returns them. A missing section or
  option raises KeyError.
\<close>

type_synonym config_parser = "(string \<times> (string \<times> string) list) list"

definition config_get :: "config_parser \<Rightarrow> string \<Rightarrow> string \<Rightarrow> py_error + string" where
  "config_get config section option =
     (case map_of config section of
        None \<Rightarrow> Inl KeyError
      | Some options \<Rightarrow>
          (case map_of options option of
             None \<Rightarrow> Inl KeyError
           | Some v \<Rightarrow> Inr v))"

text \<open>
  Python's \<^verbatim>\<open>int(s)\<close> on a string of characters below 256: surrounding whitespace
  (tab to carriage return, space, next line and no-break space) is dropped, one sign
  is allowed, then decimal digits follow, where single underscores may stand between
  two digits, and at most 4300 digits are accepted (\<^verbatim>\<open>sys.int_max_str_digits\<close>).
  Everything else raises ValueError.
\<close>

definition is_py_space :: "char \<Rightarrow> bool" where
  "is_py_space c = ((of_char c :: nat) \<in> {9, 10, 11, 12, 13, 32, 133, 160})"

definition is_py_digit :: "char \<Rightarrow> bool" where
  "is_py_digit c = (48 \<le> (of_char c :: nat) \<and> (of_char c :: nat) \<le> 57)"

definition digit_value :: "char \<Rightarrow> int" where
  "digit_value c = int (of_char c) - 48"

definition strip :: "string \<Rightarrow> string" where
  "strip s = dropWhile is_py_space (rev (dropWhile is_py_space (rev s)))"

fun more_digits :: "int \<Rightarrow> string \<Rightarrow> int option" where
  "more_digits acc [] = Some acc"
| "more_digits acc [c] =
     (if is_py_digit c then Some (acc * 10 + digit_value c) else None)"
| "more_digits acc (c # d # cs) =
     (if is_py_digit c then more_digits (acc * 10 + digit_value c) (d # cs)
      else if c = CHR ''_'' \<and> is_py_digit d then more_digits (acc * 10 + digit_value d) cs
      else None)"

definition unsigned_digits :: "string \<Rightarrow> int option" where
  "unsigned_digits s =
     (if 4300 < length (filter is_py_digit s) then None
      else case s of
        [] \<Rightarrow> None
      | c # cs \<Rightarrow> if is_py_digit c then more_digits (digit_value c) cs else None)"

definition py_int :: "string \<Rightarrow> py_error + int" where
  "py_int s =
     (case (case strip s of
              [] \<Rightarrow> None
            | c # cs \<Rightarrow>
                if c = CHR ''-'' then map_option uminus (unsigned_digits cs)
                else if c = CHR ''+'' then unsigned_digits cs
                else unsigned_digits (c # cs)) of
        None \<Rightarrow> Inl ValueError
      | Some n \<Rightarrow> Inr n)"

section \<open>\<^verbatim>\<open>get_min_frames_per_interval\<close>\<close>

text \<open>
  A Python float is an IEEE 754 double. A finite float is taken as the real number it
  denotes, and every operation rounds its exact result with \<open>round_double\<close>: to the
  nearest number with 53 significant bits and a quantum of at least \<open>2 powi (- 1074)\<close>,
  a tie going to the even neighbour. A rounded result of magnitude \<open>2 ^ 1024\<close> or more
  stands for an infinity. \<open>exponent x\<close> is the integer \<open>k\<close> with
  \<open>2 powi k \<le> \<bar>x\<bar> < 2 powi (k + 1)\<close>.
\<close>

definition round_half_even :: "real \<Rightarrow> int" where
  "round_half_even x =
     (let f = \<lfloor>x\<rfloor>; r = x - of_int f
      in if r < 1 / 2 then f else if 1 / 2 < r then f + 1 else if even f then f else f + 1)"

definition exponent :: "real \<Rightarrow> int" where
  "exponent x =
     (if 1 \<le> \<bar>x\<bar> then bitlen \<lfloor>\<bar>x\<bar>\<rfloor> - 1 else - bitlen (\<lceil>1 / \<bar>x\<bar>\<rceil> - 1))"

definition round_double :: "real \<Rightarrow> real" where
  "round_double x =
     (if x = 0 then 0
      else let e = max (exponent x - 52) (- 1074)
           in of_int (round_half_even (x / 2 powi e)) * 2 powi e)"

definition is_inf :: "real \<Rightarrow> bool" where
  "is_inf x = (2 ^ 1024 \<le> \<bar>x\<bar>)"

text \<open>\<^verbatim>\<open>int(x)\<close> on a finite float truncates towards zero.\<close>

definition py_trunc :: "real \<Rightarrow> int" where
  "py_trunc x = (if 0 \<le> x then \<lfloor>x\<rfloor> else \<lceil>x\<rceil>)"

text \<open>The literal \<^verbatim>\<open>0.95\<close> is the double nearest to 95/100.\<close>

definition MIN_TICKS_PER_INTERVAL_AUTO_MULTIPLIER :: real where
  "MIN_TICKS_PER_INTERVAL_AUTO_MULTIPLIER = round_double (95 / 100)"

text \<open>\<^verbatim>\<open>str.lower\<close> on the letters A to Z; no other character becomes a letter of \<^verbatim>\<open>auto\<close>.\<close>

definition lower_char :: "char \<Rightarrow> char" where
  "lower_char c =
     (case map_of (zip ''ABCDEFGHIJKLMNOPQRSTUVWXYZ'' ''abcdefghijklmnopqrstuvwxyz'') c of
        None \<Rightarrow> c
      | Some l \<Rightarrow> l)"

definition lower :: "string \<Rightarrow> string" where
  "lower s = map lower_char s"

text \<open>
  \<^verbatim>\<open>get_min_frames_per_interval\<close>. \<open>to_float\<close> is Python's \<^verbatim>\<open>float\<close> on a string, a
  parameter: it raises or returns a finite float. \<open>interval_per_tick\<close> is the host's
  \<^verbatim>\<open>global_vars.interval_per_tick\<close>, a finite float. The quotient and the product are
  rounded one after the other; a division by zero raises ZeroDivisionError, and
  \<^verbatim>\<open>int\<close> of an infinity raises OverflowError.
\<close>

definition get_min_frames_per_interval ::
  "(string \<Rightarrow> py_error + real) \<Rightarrow> config_parser \<Rightarrow> real \<Rightarrow> py_error + int" where
  "get_min_frames_per_interval to_float config interval_per_tick =
     (case config_get config ''frame_measurement'' ''min_frames_per_interval'' of
        Inl err \<Rightarrow> Inl err
      | Inr v \<Rightarrow>
          if lower v = ''auto'' then
            (case config_get config ''frame_measurement'' ''interval'' of
               Inl err \<Rightarrow> Inl err
             | Inr s \<Rightarrow>
                 (case to_float s of
                    Inl err \<Rightarrow> Inl err
                  | Inr interval \<Rightarrow>
                      if interval_per_tick = 0 then Inl ZeroDivisionError
                      else
                        (let quotient = round_double (interval / interval_per_tick);
                             product =
                               round_double (quotient * MIN_TICKS_PER_INTERVAL_AUTO_MULTIPLIER)
                         in if is_inf quotient \<or> is_inf product then Inl OverflowError
                            else Inr (py_trunc product))))
          else py_int v)"

text \<open>
  The module's global variables: the two configuration sources and the two counters
  of the session.
\<close>

record globals =
  config :: config_parser
  entity_actions :: "rule list"
  total_handled_entities_count :: int
  total_checks_issued :: int

section \<open>\<^verbatim>\<open>reload_configs\<close>\<close>

text \<open>
  A path of the host's \<^verbatim>\<open>path\<close> library, by the three parts \<^verbatim>\<open>get_server_file\<close>
  reads. A file is given by what the two readers make of it: \<^verbatim>\<open>ConfigParser.read\<close>
  either parses it, or raises after it has stored the sections read so far;
  \<^verbatim>\<open>json.load\<close> either returns the rule list or raises. The file system maps a path
  to the file there, if there is one.
\<close>

record path =
  dirname :: string
  namebase :: string
  ext :: string

datatype ini_result = Ini_ok config_parser | Ini_error config_parser

datatype json_result = Json_ok "rule list" | Json_error

record cfg_file =
  as_ini :: ini_result
  as_json :: json_result

type_synonym file_system = "path \<Rightarrow> cfg_file option"

definition get_server_file :: "file_system \<Rightarrow> path \<Rightarrow> path" where
  "get_server_file fs p =
     (let server_path = p\<lparr>namebase := namebase p @ ''_server''\<rparr>
      in if fs server_path \<noteq> None then server_path else p)"

text \<open>
  \<^verbatim>\<open>config.read(filename)\<close> on a fresh parser: a file that cannot be opened is skipped
  without an error and leaves the parser empty.
\<close>

definition config_read :: "file_system \<Rightarrow> path \<Rightarrow> py_error option \<times> config_parser" where
  "config_read fs p =
     (case fs p of
        None \<Rightarrow> (None, [])
      | Some f \<Rightarrow>
          (case as_ini f of
             Ini_ok c \<Rightarrow> (None, c)
           | Ini_error c \<Rightarrow> (Some ParsingError, c)))"

text \<open>
  The two files of the configuration: \<^verbatim>\<open>ENT_ANTISPAM_CFG_PATH / "config.ini"\<close> and
  \<^verbatim>\<open>ENT_ANTISPAM_CFG_PATH / "entity_actions.json"\<close>, with \<open>cfg_path\<close> for
  \<^verbatim>\<open>ENT_ANTISPAM_CFG_PATH\<close>.
\<close>

definition config_ini :: "string \<Rightarrow> path" where
  "config_ini cfg_path = \<lparr>dirname = cfg_path, namebase = ''config'', ext = ''.ini''\<rparr>"

definition entity_actions_json :: "string \<Rightarrow> path" where
  "entity_actions_json cfg_path =
     \<lparr>dirname = cfg_path, namebase = ''entity_actions'', ext = ''.json''\<rparr>"

text \<open>
  \<^verbatim>\<open>reload_configs\<close> assigns the global \<open>config\<close> before it opens the rule list, so
  the result is the exception, if one was raised, together with the globals as they
  are left.
\<close>

definition reload_configs :: "string \<Rightarrow> file_system \<Rightarrow> globals \<Rightarrow> py_error option \<times> globals" where
  "reload_configs cfg_path fs g =
     (case config_read fs (get_server_file fs (config_ini cfg_path)) of
        (Some err, c) \<Rightarrow> (Some err, g\<lparr>config := c\<rparr>)
      | (None, c) \<Rightarrow>
          (case fs (get_server_file fs (entity_actions_json cfg_path)) of
             None \<Rightarrow> (Some FileNotFoundError, g\<lparr>config := c\<rparr>)
           | Some f \<Rightarrow>
               (case as_json f of
                  Json_error \<Rightarrow> (Some JSONDecodeError, g\<lparr>config := c\<rparr>)
                | Json_ok rules \<Rightarrow> (None, g\<lparr>config := c, entity_actions := rules\<rparr>))))"

section \<open>\<^verbatim>\<open>perform_check\<close>\<close>

text \<open>Step 1: the triples \<^verbatim>\<open>(entity, entity.index, entity.origin)\<close> of all entities.\<close>

definition collect_entities :: "'v entity list \<Rightarrow> ('v entity \<times> int \<times> 'v) list" where
  "collect_entities entities = map (\<lambda>entity. (entity, index entity, origin entity)) entities"

text \<open>
  Step 2, inner loop: the pile around \<open>pile_origin\<close>. \<open>get_distance_sqr\<close> is the host's
  \<^verbatim>\<open>Vector.get_distance_sqr\<close>, a parameter; its result is compared with the integer
  \<^verbatim>\<open>pile_radius_sqr\<close> exactly, as Python compares a float with an int.
\<close>

fun detect_pile ::
  "('v \<Rightarrow> 'v \<Rightarrow> real) \<Rightarrow> int \<Rightarrow> 'v \<Rightarrow> ('v entity \<times> int \<times> 'v) list \<Rightarrow> ('v entity \<times> int) list" where
  "detect_pile get_distance_sqr pile_radius_sqr pile_origin [] = []"
| "detect_pile get_distance_sqr pile_radius_sqr pile_origin ((entity, idx, orig) # ent_pos) =
     (if get_distance_sqr pile_origin orig > real_of_int pile_radius_sqr
      then detect_pile get_distance_sqr pile_radius_sqr pile_origin ent_pos
      else if is_static_entity entity
      then detect_pile get_distance_sqr pile_radius_sqr pile_origin ent_pos
      else (entity, index entity) # detect_pile get_distance_sqr pile_radius_sqr pile_origin ent_pos)"

text \<open>
  Step 2, outer loop, over the anchors \<open>anchors\<close>; every pile is scanned over the whole
  \<open>ent_pos\<close>.
\<close>

fun detect_piles ::
  "('v \<Rightarrow> 'v \<Rightarrow> real) \<Rightarrow> int \<Rightarrow> int \<Rightarrow> ('v entity \<times> int \<times> 'v) list \<Rightarrow>
   ('v entity \<times> int \<times> 'v) list \<Rightarrow> ('v entity \<times> int) list list" where
  "detect_piles get_distance_sqr pile_radius_sqr max_entities_per_pile ent_pos [] = []"
| "detect_piles get_distance_sqr pile_radius_sqr max_entities_per_pile ent_pos
     ((pile_entity, pile_index, pile_origin) # anchors) =
     (let pile = detect_pile get_distance_sqr pile_radius_sqr pile_origin ent_pos
      in if int (length pile) > max_entities_per_pile
         then pile # detect_piles get_distance_sqr pile_radius_sqr max_entities_per_pile ent_pos anchors
         else detect_piles get_distance_sqr pile_radius_sqr max_entities_per_pile ent_pos anchors)"

text \<open>
  Step 3: the state of the two loops is \<^verbatim>\<open>handled_indexes\<close>,
  \<^verbatim>\<open>handled_entities_count\<close> and the calls made on the host so far. An exception of
  \<open>handle_entity\<close> ends the pass.
\<close>

type_synonym 'v clear_state = "int list \<times> int \<times> 'v host_call list"

fun clear_pile ::
  "rule list \<Rightarrow> ('v entity \<times> int) list \<Rightarrow> 'v clear_state \<Rightarrow> py_error + 'v clear_state" where
  "clear_pile rules [] st = Inr st"
| "clear_pile rules ((entity, idx) # pile) (handled_indexes, handled_entities_count, calls) =
     (if idx \<in> set handled_indexes
      then clear_pile rules pile (handled_indexes, handled_entities_count, calls)
      else (case handle_entity rules entity of
              Inl err \<Rightarrow> Inl err
            | Inr (handled, made) \<Rightarrow>
                clear_pile rules pile
                  (handled_indexes @ [idx],
                   (if handled then handled_entities_count + 1 else handled_entities_count),
                   calls @ made)))"

fun clear_piles ::
  "rule list \<Rightarrow> ('v entity \<times> int) list list \<Rightarrow> 'v clear_state \<Rightarrow> py_error + 'v clear_state" where
  "clear_piles rules [] st = Inr st"
| "clear_piles rules (pile # piles_to_clear) st =
     (case clear_pile rules pile st of
        Inl err \<Rightarrow> Inl err
      | Inr st' \<Rightarrow> clear_piles rules piles_to_clear st')"

text \<open>
  The whole pass on the entities \<open>entities\<close> that \<^verbatim>\<open>EntityIter()\<close> yields. The two
  parameters are read from \<open>config\<close> first and converted by \<^verbatim>\<open>int\<close>; the counters are
  updated last (step 4). The result is the new globals and the host calls made.
\<close>

definition perform_check ::
  "('v \<Rightarrow> 'v \<Rightarrow> real) \<Rightarrow> globals \<Rightarrow> 'v entity list \<Rightarrow> py_error + globals \<times> 'v host_call list" where
  "perform_check get_distance_sqr g entities =
     (case config_get (config g) ''piles'' ''max_entities_per_pile'' of
        Inl err \<Rightarrow> Inl err
      | Inr s1 \<Rightarrow>
     (case py_int s1 of
        Inl err \<Rightarrow> Inl err
      | Inr max_entities_per_pile \<Rightarrow>
     (case config_get (config g) ''piles'' ''pile_radius'' of
        Inl err \<Rightarrow> Inl err
      | Inr s2 \<Rightarrow>
     (case py_int s2 of
        Inl err \<Rightarrow> Inl err
      | Inr pile_radius \<Rightarrow>
          (let ent_pos = collect_entities entities;
               pile_radius_sqr = pile_radius ^ 2;
               piles_to_clear =
                 detect_piles get_distance_sqr pile_radius_sqr max_entities_per_pile ent_pos ent_pos
           in case clear_piles (entity_actions g) piles_to_clear ([], 0, []) of
                Inl err \<Rightarrow> Inl err
              | Inr (handled_indexes, handled_entities_count, calls) \<Rightarrow>
                  Inr (g\<lparr>total_checks_issued := total_checks_issued g + 1,
                         total_handled_entities_count :=
                           total_handled_entities_count g + handled_entities_count\<rparr>,
                       calls))))))"

section \<open>\<^verbatim>\<open>FrameWatcher\<close>\<close>

text \<open>
  The fields of a \<^verbatim>\<open>FrameWatcher\<close>; the host's \<^verbatim>\<open>Repeat\<close> timer is kept by whether it
  is running.
\<close>

record frame_watcher =
  repeat_running :: bool
  last_watch_frame :: "int option"
  last_delta_frame :: "int option"
  min_frames_per_interval :: int

text \<open>
  \<^verbatim>\<open>_watch\<close>, with \<open>current_frame\<close> the host's \<^verbatim>\<open>global_vars.frame_count\<close>. An exception
  of \<^verbatim>\<open>perform_check\<close> leaves the method before the last assignment. The result is
  the exception, if any, the watcher, the globals and the host calls made.
\<close>

definition watch ::
  "('v \<Rightarrow> 'v \<Rightarrow> real) \<Rightarrow> int \<Rightarrow> 'v entity list \<Rightarrow> frame_watcher \<Rightarrow> globals \<Rightarrow>
   py_error option \<times> frame_watcher \<times> globals \<times> 'v host_call list" where
  "watch get_distance_sqr current_frame entities self g =
     (case last_watch_frame self of
        None \<Rightarrow> (None, self\<lparr>last_watch_frame := Some current_frame\<rparr>, g, [])
      | Some last_frame \<Rightarrow>
          (let self1 = self\<lparr>last_delta_frame := Some (current_frame - last_frame)\<rparr>
           in if current_frame - last_frame \<le> min_frames_per_interval self1
              then (case perform_check get_distance_sqr g entities of
                      Inl err \<Rightarrow> (Some err, self1, g, [])
                    | Inr (g', calls) \<Rightarrow>
                        (None, self1\<lparr>last_watch_frame := Some current_frame\<rparr>, g', calls))
              else (None, self1\<lparr>last_watch_frame := Some current_frame\<rparr>, g, [])))"

definition stop :: "frame_watcher \<Rightarrow> frame_watcher" where
  "stop self = self\<lparr>repeat_running := False, last_watch_frame := None\<rparr>"

section \<open>The specification's notions\<close>

text \<open>
  A rule matches a classname, in the specification's words: its pattern equals the
  classname exactly, or the pattern ends in the wildcard marker and the classname
  starts with the pattern's literal prefix (the pattern without the marker).
\<close>

definition rule_matches :: "string \<Rightarrow> rule \<Rightarrow> bool" where
  "rule_matches cls r =
     (rule_classname r = cls \<or>
      (endswith (rule_classname r) ''*'' \<and> startswith cls (butlast (rule_classname r))))"

text \<open>
  The neighbourhood of an anchor \<open>a\<close> in a snapshot, in the specification's words: all
  objects \<open>b\<close> of the snapshot that are not static and whose squared distance to \<open>a\<close> is
  at most the squared radius; kept in the snapshot's order.
\<close>

definition neighbourhood ::
  "('v \<Rightarrow> 'v \<Rightarrow> real) \<Rightarrow> int \<Rightarrow> 'v entity list \<Rightarrow> 'v entity \<Rightarrow> 'v entity list" where
  "neighbourhood get_distance_sqr r S a =
     filter (\<lambda>b. \<not> is_static_entity b \<and>
                 get_distance_sqr (origin a) (origin b) \<le> real_of_int (r ^ 2)) S"

text \<open>
  The members of the piles that a pass submits to the rule engine: each member in
  order, except those whose id has been seen before.
\<close>

fun submitted :: "int list \<Rightarrow> ('v entity \<times> int) list \<Rightarrow> ('v entity \<times> int) list" where
  "submitted seen [] = []"
| "submitted seen ((entity, idx) # members) =
     (if idx \<in> set seen then submitted seen members
      else (entity, idx) # submitted (seen @ [idx]) members)"

text \<open>What the rule engine reports for an entity, and the host calls it makes.\<close>

definition reports_handled :: "rule list \<Rightarrow> 'v entity \<Rightarrow> bool" where
  "reports_handled rules entity =
     (case handle_entity rules entity of Inl err \<Rightarrow> False | Inr (handled, made) \<Rightarrow> handled)"

definition calls_of :: "rule list \<Rightarrow> 'v entity \<Rightarrow> 'v host_call list" where
  "calls_of rules entity =
     (case handle_entity rules entity of Inl err \<Rightarrow> [] | Inr (handled, made) \<Rightarrow> made)"

section \<open>Example data\<close>

text \<open>
  The examples place entities at points with three real coordinates and measure the
  squared Euclidean distance, which the host's \<^verbatim>\<open>get_distance_sqr\<close> computes.
\<close>

type_synonym vec = "real \<times> real \<times> real"

definition euclid_sqr :: "vec \<Rightarrow> vec \<Rightarrow> real" where
  "euclid_sqr p q =
     (case p of (x1, y1, z1) \<Rightarrow> case q of (x2, y2, z2) \<Rightarrow>
        (x1 - x2) ^ 2 + (y1 - y2) ^ 2 + (z1 - z2) ^ 2)"

definition moving :: "physics_object" where
  "moving = \<lparr>is_static = False, collision_enabled = True, asleep = False, motion_enabled = True\<rparr>"

definition prop1 :: "vec entity" where
  "prop1 = \<lparr>index = 1, classname = ''prop_physics'', origin = (0, 0, 0),
            physics_object = Some moving\<rparr>"

definition prop2 :: "vec entity" where
  "prop2 = \<lparr>index = 2, classname = ''prop_physics'', origin = (1, 0, 0),
            physics_object = Some moving\<rparr>"

definition gib3 :: "vec entity" where
  "gib3 = \<lparr>index = 3, classname = ''gib'', origin = (2, 0, 0),
           physics_object = Some moving\<rparr>"

definition wall4 :: "vec entity" where
  "wall4 = \<lparr>index = 4, classname = ''func_wall'', origin = (1, 1, 0),
            physics_object = None\<rparr>"

definition far5 :: "vec entity" where
  "far5 = \<lparr>index = 5, classname = ''prop_physics'', origin = (100, 0, 0),
           physics_object = Some moving\<rparr>"

definition abc_entity :: "vec entity" where
  "abc_entity = \<lparr>index = 6, classname = ''ABC'', origin = (0, 0, 0),
                 physics_object = Some moving\<rparr>"

definition example_entities :: "vec entity list" where
  "example_entities = [prop1, prop2, gib3, wall4, far5]"

definition example_rules :: "rule list" where
  "example_rules =
     [\<lparr>rule_classname = ''prop_*'', action = ''remove''\<rparr>,
      \<lparr>rule_classname = ''gib'', action = ''ignore''\<rparr>,
      \<lparr>rule_classname = ''gib'', action = ''freeze''\<rparr>]"

definition example_config :: config_parser where
  "example_config =
     [(''frame_measurement'',
         [(''interval'', ''2.0''), (''min_frames_per_interval'', ''126''),
          (''level_init_delay'', ''5.0'')]),
      (''piles'', [(''max_entities_per_pile'', ''2''), (''pile_radius'', ''3'')])]"

definition example_globals :: globals where
  "example_globals =
     \<lparr>config = example_config, entity_actions = example_rules,
      total_handled_entities_count = 0, total_checks_issued = 0\<rparr>"

text \<open>A configuration whose section \<^verbatim>\<open>piles\<close> is missing.\<close>

definition config_without_piles :: config_parser where
  "config_without_piles =
     [(''frame_measurement'',
         [(''interval'', ''2.0''), (''min_frames_per_interval'', ''126''),
          (''level_init_delay'', ''5.0'')])]"

text \<open>
  A configuration in auto mode, and Python's \<^verbatim>\<open>float\<close> on the interval strings of the
  examples: \<^verbatim>\<open>float("2.0")\<close> is 2, \<^verbatim>\<open>float("0.4276315789473684")\<close> is
  \<^verbatim>\<open>0x1.b5e50d79435e5p-2\<close> and \<^verbatim>\<open>float("4.6")\<close> is \<^verbatim>\<open>0x1.2666666666666p+2\<close>.
\<close>

definition auto_config :: "string \<Rightarrow> config_parser" where
  "auto_config interval =
     [(''frame_measurement'',
         [(''interval'', interval), (''min_frames_per_interval'', ''Auto''),
          (''level_init_delay'', ''5.0'')])]"

definition example_float :: "string \<Rightarrow> py_error + real" where
  "example_float s =
     (if s = ''2.0'' then Inr 2
      else if s = ''0.4276315789473684'' then Inr (7703525678396901 / 2 ^ 54)
      else if s = ''4.6'' then Inr (2589569785738035 / 2 ^ 49)
      else Inl ValueError)"

definition example_watcher :: frame_watcher where
  "example_watcher =
     \<lparr>repeat_running = True, last_watch_frame = Some 100, last_delta_frame = Some 40,
      min_frames_per_interval = 126\<rparr>"

text \<open>
  A file system with a new \<^verbatim>\<open>config.ini\<close> and no \<^verbatim>\<open>entity_actions.json\<close>, and one that
  has both.
\<close>

definition fs_without_rules :: file_system where
  "fs_without_rules p =
     (if p = config_ini ''cfg''
      then Some \<lparr>as_ini = Ini_ok config_without_piles, as_json = Json_error\<rparr>
      else None)"

definition fs_complete :: file_system where
  "fs_complete p =
     (if p = config_ini ''cfg''
      then Some \<lparr>as_ini = Ini_ok config_without_piles, as_json = Json_error\<rparr>
      else if p = entity_actions_json ''cfg''
      then Some \<lparr>as_ini = Ini_error [], as_json = Json_ok []\<rparr>
      else None)"

section \<open>The rule engine\<close>

text \<open>
  The test of \<^verbatim>\<open>handle_entity\<close> that skips a rule is the negation of
  \<open>rule_matches\<close>: a pattern that ends in the marker is a prefix pattern, and the
  classname equal to such a pattern starts with its prefix anyway.
\<close>

lemma endswith_star: "endswith p ''*'' \<longleftrightarrow> p \<noteq> [] \<and> last p = CHR ''*''"
proof (cases p rule: rev_cases)
  case Nil
  then show ?thesis by (simp add: endswith_def)
next
  case (snoc ys y)
  then show ?thesis by (simp add: endswith_def)
qed

lemma source_test_is_no_match:
  "(if endswith (rule_classname r) ''*''
    then \<not> startswith cls (butlast (rule_classname r))
    else cls \<noteq> rule_classname r) = (\<not> rule_matches cls r)"
proof (cases "endswith (rule_classname r) ''*''")
  case True
  then have ne: "rule_classname r \<noteq> []" by (simp add: endswith_star)
  have "startswith (rule_classname r) (butlast (rule_classname r))"
    using ne by (cases "rule_classname r" rule: rev_cases) (simp_all add: startswith_def)
  then show ?thesis using True by (auto simp: rule_matches_def)
next
  case False
  then show ?thesis by (auto simp: rule_matches_def)
qed

lemma handle_entity_Cons:
  "handle_entity (r # rules) entity =
     (if \<not> rule_matches (classname entity) r then handle_entity rules entity
      else if action r = ''remove'' then Inr (True, [Remove_call entity])
      else if action r = ''freeze'' then
        (case physics_object entity of
           None \<Rightarrow> Inl AttributeError
         | Some physics_obj \<Rightarrow> Inr (True, [Freeze_call entity]))
      else Inr (False, []))"
  using source_test_is_no_match [of r "classname entity"] by simp

lemma handle_entity_skip:
  "\<forall>r \<in> set before. \<not> rule_matches (classname entity) r \<Longrightarrow>
   handle_entity (before @ rules) entity = handle_entity rules entity"
  by (induction before) (simp_all add: handle_entity_Cons del: handle_entity.simps(2))

text \<open>
  Claim C3. When the first rule that matches the entity's classname has an action that
  is neither \<^verbatim>\<open>remove\<close> nor \<^verbatim>\<open>freeze\<close>, \<open>handle_entity\<close> returns False and makes
  no host call, whatever rules follow it: no later rule is consulted.
\<close>

theorem handle_entity_other_action_stops:
  assumes "\<forall>r \<in> set before. \<not> rule_matches (classname entity) r"
    and "rule_matches (classname entity) r"
    and "action r \<noteq> ''remove''" and "action r \<noteq> ''freeze''"
  shows "handle_entity (before @ r # later) entity = Inr (False, [])"
  using assms by (simp add: handle_entity_skip handle_entity_Cons del: handle_entity.simps(2))

theorem handle_entity_other_action_stops_witness:
  "\<not> rule_matches (classname gib3) \<lparr>rule_classname = ''prop_*'', action = ''remove''\<rparr> \<and>
   rule_matches (classname gib3) \<lparr>rule_classname = ''gib'', action = ''ignore''\<rparr> \<and>
   rule_matches (classname gib3) \<lparr>rule_classname = ''gib'', action = ''freeze''\<rparr> \<and>
   handle_entity example_rules gib3 = Inr (False, []) \<and>
   handle_entity [\<lparr>rule_classname = ''gib'', action = ''freeze''\<rparr>] gib3 =
     Inr (True, [Freeze_call gib3])"
  using handle_entity_other_action_stops
    [of "[\<lparr>rule_classname = ''prop_*'', action = ''remove''\<rparr>]" gib3
        "\<lparr>rule_classname = ''gib'', action = ''ignore''\<rparr>"
        "[\<lparr>rule_classname = ''gib'', action = ''freeze''\<rparr>]"]
  by (simp add: example_rules_def gib3_def rule_matches_def startswith_def endswith_def)

text \<open>
  Claim C8. \<open>handle_entity\<close> does what the first rule of the list that matches the
  classname says, where matching is \<open>rule_matches\<close>: it removes the entity for
  \<^verbatim>\<open>remove\<close>, freezes it for \<^verbatim>\<open>freeze\<close> (raising when there is no physics object),
  and reports False for any other action or when no rule matches. With the rules
  (A*, remove), (AB, freeze) an entity of classname ABC is handled by removing it.
\<close>

theorem handle_entity_first_match:
  "handle_entity rules entity =
     (case find (rule_matches (classname entity)) rules of
        None \<Rightarrow> Inr (False, [])
      | Some r \<Rightarrow>
          if action r = ''remove'' then Inr (True, [Remove_call entity])
          else if action r = ''freeze'' then
            (case physics_object entity of
               None \<Rightarrow> Inl AttributeError
             | Some physics_obj \<Rightarrow> Inr (True, [Freeze_call entity]))
          else Inr (False, [])) \<and>
   (classname entity = ''ABC'' \<longrightarrow>
      handle_entity [\<lparr>rule_classname = ''A*'', action = ''remove''\<rparr>,
                     \<lparr>rule_classname = ''AB'', action = ''freeze''\<rparr>] entity =
        Inr (True, [Remove_call entity]))"
proof
  show "handle_entity rules entity =
     (case find (rule_matches (classname entity)) rules of
        None \<Rightarrow> Inr (False, [])
      | Some r \<Rightarrow>
          if action r = ''remove'' then Inr (True, [Remove_call entity])
          else if action r = ''freeze'' then
            (case physics_object entity of
               None \<Rightarrow> Inl AttributeError
             | Some physics_obj \<Rightarrow> Inr (True, [Freeze_call entity]))
          else Inr (False, []))"
    by (induction rules) (simp_all add: handle_entity_Cons del: handle_entity.simps(2))
  show "classname entity = ''ABC'' \<longrightarrow>
      handle_entity [\<lparr>rule_classname = ''A*'', action = ''remove''\<rparr>,
                     \<lparr>rule_classname = ''AB'', action = ''freeze''\<rparr>] entity =
        Inr (True, [Remove_call entity])"
    by (simp add: startswith_def endswith_def)
qed

theorem handle_entity_first_match_witness:
  "find (rule_matches (classname abc_entity))
     [\<lparr>rule_classname = ''A*'', action = ''remove''\<rparr>,
      \<lparr>rule_classname = ''ABC'', action = ''freeze''\<rparr>] =
     Some \<lparr>rule_classname = ''A*'', action = ''remove''\<rparr> \<and>
   handle_entity [\<lparr>rule_classname = ''A*'', action = ''remove''\<rparr>,
                  \<lparr>rule_classname = ''ABC'', action = ''freeze''\<rparr>] abc_entity =
     Inr (True, [Remove_call abc_entity]) \<and>
   classname abc_entity = ''ABC'' \<and>
   handle_entity [\<lparr>rule_classname = ''A*'', action = ''remove''\<rparr>,
                  \<lparr>rule_classname = ''AB'', action = ''freeze''\<rparr>] abc_entity =
     Inr (True, [Remove_call abc_entity])"
  using handle_entity_first_match [of "[\<lparr>rule_classname = ''A*'', action = ''remove''\<rparr>,
      \<lparr>rule_classname = ''ABC'', action = ''freeze''\<rparr>]" abc_entity]
    handle_entity_first_match [of "[]" abc_entity]
  by (simp add: abc_entity_def rule_matches_def startswith_def endswith_def)

section \<open>Static entities\<close>

text \<open>
  Claim C9. \<open>is_static_entity\<close> holds exactly when the entity has no physics object, or
  its physics object is static, has collisions disabled, is asleep or has motion
  disabled.
\<close>

theorem is_static_entity_iff:
  "is_static_entity entity \<longleftrightarrow>
     physics_object entity = None \<or>
     (\<exists>p. physics_object entity = Some p \<and>
          (is_static p \<or> \<not> collision_enabled p \<or> asleep p \<or> \<not> motion_enabled p))"
  by (cases "physics_object entity") (simp_all add: is_static_entity_def)

theorem is_static_entity_iff_witness:
  "is_static_entity wall4 \<and> \<not> is_static_entity prop1 \<and>
   is_static_entity (prop1\<lparr>physics_object := Some (moving\<lparr>asleep := True\<rparr>)\<rparr>) \<and>
   is_static_entity (prop1\<lparr>physics_object := Some (moving\<lparr>is_static := True\<rparr>)\<rparr>) \<and>
   is_static_entity (prop1\<lparr>physics_object := Some (moving\<lparr>collision_enabled := False\<rparr>)\<rparr>) \<and>
   is_static_entity (prop1\<lparr>physics_object := Some (moving\<lparr>motion_enabled := False\<rparr>)\<rparr>)"
  using is_static_entity_iff [of wall4] is_static_entity_iff [of prop1]
    is_static_entity_iff [of "prop1\<lparr>physics_object := Some (moving\<lparr>asleep := True\<rparr>)\<rparr>"]
    is_static_entity_iff [of "prop1\<lparr>physics_object := Some (moving\<lparr>is_static := True\<rparr>)\<rparr>"]
    is_static_entity_iff [of "prop1\<lparr>physics_object := Some (moving\<lparr>collision_enabled := False\<rparr>)\<rparr>"]
    is_static_entity_iff [of "prop1\<lparr>physics_object := Some (moving\<lparr>motion_enabled := False\<rparr>)\<rparr>"]
  by (simp add: wall4_def prop1_def moving_def)

section \<open>Stopping the watcher\<close>

text \<open>
  Claim C6, as the code has it. \<open>stop\<close> stops the timer and resets the last sampled
  frame to None; the last measured delta and the threshold are left as they were.
  Nothing in \<open>stop\<close> depends on the timer running.
\<close>

theorem stop_clears_sample_only:
  "last_watch_frame (stop self) = None \<and>
   last_delta_frame (stop self) = last_delta_frame self \<and>
   min_frames_per_interval (stop self) = min_frames_per_interval self \<and>
   repeat_running (stop self) = False"
  by (simp add: stop_def)

text \<open>
  The claim that \<open>stop\<close> also clears the last measured delta fails: a watcher that
  measured 40 frames still reports them after \<open>stop\<close>.
\<close>

theorem stop_keeps_delta_counterexample:
  "last_watch_frame (stop example_watcher) = None \<and>
   last_delta_frame (stop example_watcher) = Some 40 \<and>
   last_delta_frame (stop example_watcher) \<noteq> None"
  by (simp add: stop_def example_watcher_def)

section \<open>Reloading the configuration\<close>

text \<open>
  Claim C2, as the code has it. \<open>reload_configs\<close> always replaces \<open>config\<close> by what was
  read from the configuration file (nothing, when the file is missing) and leaves the
  counters alone. It succeeds exactly when the configuration file did not fail to
  parse and the rule list was found and loaded; then the rule list is replaced too.
  When it fails, the previous rule list stays in effect.
\<close>

theorem reload_configs_outcome:
  "config (snd (reload_configs cfg_path fs g)) =
     snd (config_read fs (get_server_file fs (config_ini cfg_path))) \<and>
   total_checks_issued (snd (reload_configs cfg_path fs g)) = total_checks_issued g \<and>
   total_handled_entities_count (snd (reload_configs cfg_path fs g)) =
     total_handled_entities_count g \<and>
   (fst (reload_configs cfg_path fs g) = None \<longleftrightarrow>
      fst (config_read fs (get_server_file fs (config_ini cfg_path))) = None \<and>
      (\<exists>f rules. fs (get_server_file fs (entity_actions_json cfg_path)) = Some f \<and>
                 as_json f = Json_ok rules)) \<and>
   (\<forall>f rules. fst (reload_configs cfg_path fs g) = None \<and>
              fs (get_server_file fs (entity_actions_json cfg_path)) = Some f \<and>
              as_json f = Json_ok rules \<longrightarrow>
              entity_actions (snd (reload_configs cfg_path fs g)) = rules) \<and>
   (fst (reload_configs cfg_path fs g) \<noteq> None \<longrightarrow>
      entity_actions (snd (reload_configs cfg_path fs g)) = entity_actions g)"
  by (auto simp: reload_configs_def split: prod.splits option.splits json_result.splits)

theorem reload_configs_outcome_witness:
  "reload_configs ''cfg'' fs_complete example_globals =
     (None, example_globals\<lparr>config := config_without_piles, entity_actions := []\<rparr>) \<and>
   reload_configs ''cfg'' fs_without_rules example_globals =
     (Some FileNotFoundError, example_globals\<lparr>config := config_without_piles\<rparr>)"
  using reload_configs_outcome [of "''cfg''" fs_complete example_globals]
    reload_configs_outcome [of "''cfg''" fs_without_rules example_globals]
  by (simp add: reload_configs_def fs_complete_def fs_without_rules_def config_read_def
      get_server_file_def config_ini_def entity_actions_json_def)

text \<open>
  The claim that a reload replaces both sources or none fails: with a readable
  \<^verbatim>\<open>config.ini\<close> and no \<^verbatim>\<open>entity_actions.json\<close> the reload raises, the
  configuration has been replaced and the rule list has not.
\<close>

theorem reload_configs_partial_counterexample:
  "fst (reload_configs ''cfg'' fs_without_rules example_globals) = Some FileNotFoundError \<and>
   config (snd (reload_configs ''cfg'' fs_without_rules example_globals)) = config_without_piles \<and>
   config (snd (reload_configs ''cfg'' fs_without_rules example_globals)) \<noteq> config example_globals \<and>
   entity_actions (snd (reload_configs ''cfg'' fs_without_rules example_globals)) =
     entity_actions example_globals"
  by (simp add: reload_configs_def fs_without_rules_def config_read_def
      get_server_file_def config_ini_def entity_actions_json_def example_globals_def
      example_config_def config_without_piles_def)

section \<open>The pile detector\<close>

text \<open>
  The two loops of step 2 are filters: the inner loop keeps the entities that are
  within the radius and not static, the outer loop keeps the piles that are larger
  than the maximum.
\<close>

lemma detect_pile_filter:
  "detect_pile d r2 po (collect_entities S) =
     map (\<lambda>b. (b, index b))
       (filter (\<lambda>b. \<not> is_static_entity b \<and> d po (origin b) \<le> real_of_int r2) S)"
  by (induction S) (auto simp: collect_entities_def)

lemma detect_piles_filter:
  "detect_piles d r2 mx ent_pos (collect_entities A) =
     map (\<lambda>a. detect_pile d r2 (origin a) ent_pos)
       (filter (\<lambda>a. mx < int (length (detect_pile d r2 (origin a) ent_pos))) A)"
  by (induction A) (simp_all add: collect_entities_def Let_def)

lemma detect_pile_neighbourhood:
  "detect_pile d (r ^ 2) (origin a) (collect_entities S) =
     map (\<lambda>b. (b, index b)) (neighbourhood d r S a)"
  by (simp add: detect_pile_filter neighbourhood_def)

lemma detect_piles_neighbourhood:
  "detect_piles d (r ^ 2) mx (collect_entities S) (collect_entities S) =
     map (\<lambda>a. map (\<lambda>b. (b, index b)) (neighbourhood d r S a))
       (filter (\<lambda>a. mx < int (length (neighbourhood d r S a))) S)"
  by (simp add: detect_piles_filter detect_pile_neighbourhood)

lemma pile_member:
  assumes "pile \<in> set (detect_piles d r2 mx (collect_entities S) (collect_entities A))"
    and "(b, i) \<in> set pile"
  shows "b \<in> set S \<and> \<not> is_static_entity b \<and> i = index b"
  using assms by (auto simp: detect_piles_filter detect_pile_filter)

lemma pile_size:
  assumes "pile \<in> set (detect_piles d r2 mx ent_pos (collect_entities A))"
  shows "mx < int (length pile)"
  using assms by (auto simp: detect_piles_filter)

text \<open>
  The example entities: three moving entities next to each other, a wall without a
  physics object among them, and a moving entity far away. With radius 3 and a maximum
  of 2 the three neighbours and the wall each anchor the same pile.
\<close>

lemma py_int_2: "py_int ''2'' = Inr 2"
  by (simp add: py_int_def strip_def is_py_space_def unsigned_digits_def is_py_digit_def digit_value_def)

lemma py_int_3: "py_int ''3'' = Inr 3"
  by (simp add: py_int_def strip_def is_py_space_def unsigned_digits_def is_py_digit_def digit_value_def)

lemma example_max_entities: "config_get example_config ''piles'' ''max_entities_per_pile'' = Inr ''2''"
  by (simp add: config_get_def example_config_def)

lemma example_pile_radius: "config_get example_config ''piles'' ''pile_radius'' = Inr ''3''"
  by (simp add: config_get_def example_config_def)

lemma example_static: "\<not> is_static_entity prop1" "\<not> is_static_entity prop2" "\<not> is_static_entity gib3"
  "is_static_entity wall4" "\<not> is_static_entity far5"
  by (simp_all add: is_static_entity_def prop1_def prop2_def gib3_def wall4_def far5_def moving_def)

lemma example_origins: "origin prop1 = (0,0,0)" "origin prop2 = (1,0,0)" "origin gib3 = (2,0,0)"
  "origin wall4 = (1,1,0)" "origin far5 = (100,0,0)"
  by (simp_all add: prop1_def prop2_def gib3_def wall4_def far5_def)

lemma example_indexes: "index prop1 = 1" "index prop2 = 2" "index gib3 = 3" "index wall4 = 4" "index far5 = 5"
  by (simp_all add: prop1_def prop2_def gib3_def wall4_def far5_def)

lemma example_piles:
  "detect_piles euclid_sqr (3 ^ 2) 2 (collect_entities example_entities)
     (collect_entities example_entities) =
   [[(prop1, 1), (prop2, 2), (gib3, 3)], [(prop1, 1), (prop2, 2), (gib3, 3)],
    [(prop1, 1), (prop2, 2), (gib3, 3)], [(prop1, 1), (prop2, 2), (gib3, 3)]]"
  by (simp add: collect_entities_def example_entities_def example_static example_origins example_indexes euclid_sqr_def Let_def)

lemma example_piles_9:
  "detect_piles euclid_sqr 9 2 (collect_entities example_entities)
     (collect_entities example_entities) =
   [[(prop1, 1), (prop2, 2), (gib3, 3)], [(prop1, 1), (prop2, 2), (gib3, 3)],
    [(prop1, 1), (prop2, 2), (gib3, 3)], [(prop1, 1), (prop2, 2), (gib3, 3)]]"
  using example_piles by simp

lemma example_neighbourhoods:
  "neighbourhood euclid_sqr 3 example_entities prop1 = [prop1, prop2, gib3]"
  "neighbourhood euclid_sqr 3 example_entities wall4 = [prop1, prop2, gib3]"
  "neighbourhood euclid_sqr 3 example_entities far5 = [far5]"
  by (simp_all add: neighbourhood_def example_entities_def example_static example_origins euclid_sqr_def)

lemma example_distinct: "distinct example_entities"
  by (simp add: example_entities_def prop1_def prop2_def gib3_def wall4_def far5_def)

text \<open>
  Claim C1. For every snapshot \<open>S\<close>, radius \<open>r\<close> and maximum \<open>mx\<close>, step 2 emits, for the
  anchors of \<open>S\<close> in order and whether or not they are static, the neighbourhood of the
  anchor (each member with its index) exactly when it has more than \<open>mx\<close> members. The
  neighbourhood is the set of entities of \<open>S\<close> that are not static and within the
  squared radius of the anchor, and has as many members as that set when the entities
  of \<open>S\<close> are distinct. So every emitted pile has more than \<open>mx\<close> members, none static.
\<close>

theorem detect_piles_spec:
  "detect_piles d (r ^ 2) mx (collect_entities S) (collect_entities S) =
     map (\<lambda>a. map (\<lambda>b. (b, index b)) (neighbourhood d r S a))
       (filter (\<lambda>a. mx < int (length (neighbourhood d r S a))) S) \<and>
   set (neighbourhood d r S a) =
     {b \<in> set S. \<not> is_static_entity b \<and> d (origin a) (origin b) \<le> real_of_int (r ^ 2)} \<and>
   (distinct S \<longrightarrow>
      length (neighbourhood d r S a) =
        card {b \<in> set S. \<not> is_static_entity b \<and> d (origin a) (origin b) \<le> real_of_int (r ^ 2)}) \<and>
   (\<forall>pile \<in> set (detect_piles d (r ^ 2) mx (collect_entities S) (collect_entities S)).
      mx < int (length pile) \<and>
      (\<forall>(b, i) \<in> set pile. b \<in> set S \<and> \<not> is_static_entity b \<and> i = index b))"
proof (intro conjI)
  show "detect_piles d (r ^ 2) mx (collect_entities S) (collect_entities S) =
     map (\<lambda>a. map (\<lambda>b. (b, index b)) (neighbourhood d r S a))
       (filter (\<lambda>a. mx < int (length (neighbourhood d r S a))) S)"
    by (rule detect_piles_neighbourhood)
  show "set (neighbourhood d r S a) =
     {b \<in> set S. \<not> is_static_entity b \<and> d (origin a) (origin b) \<le> real_of_int (r ^ 2)}"
    by (auto simp: neighbourhood_def)
  show "distinct S \<longrightarrow>
      length (neighbourhood d r S a) =
        card {b \<in> set S. \<not> is_static_entity b \<and> d (origin a) (origin b) \<le> real_of_int (r ^ 2)}"
  proof
    assume "distinct S"
    then have "distinct (neighbourhood d r S a)" by (simp add: neighbourhood_def)
    then have "length (neighbourhood d r S a) = card (set (neighbourhood d r S a))"
      by (simp add: distinct_card)
    also have "set (neighbourhood d r S a) =
       {b \<in> set S. \<not> is_static_entity b \<and> d (origin a) (origin b) \<le> real_of_int (r ^ 2)}"
      by (auto simp: neighbourhood_def)
    finally show "length (neighbourhood d r S a) =
        card {b \<in> set S. \<not> is_static_entity b \<and> d (origin a) (origin b) \<le> real_of_int (r ^ 2)}" .
  qed
  show "\<forall>pile \<in> set (detect_piles d (r ^ 2) mx (collect_entities S) (collect_entities S)).
      mx < int (length pile) \<and>
      (\<forall>(b, i) \<in> set pile. b \<in> set S \<and> \<not> is_static_entity b \<and> i = index b)"
    using pile_member [of _ d "r ^ 2" mx S S] pile_size [of _ d "r ^ 2" mx "collect_entities S" S]
    by blast
qed

theorem detect_piles_spec_witness:
  "detect_piles euclid_sqr (3 ^ 2) 2 (collect_entities example_entities)
     (collect_entities example_entities) =
   [[(prop1, 1), (prop2, 2), (gib3, 3)], [(prop1, 1), (prop2, 2), (gib3, 3)],
    [(prop1, 1), (prop2, 2), (gib3, 3)], [(prop1, 1), (prop2, 2), (gib3, 3)]] \<and>
   is_static_entity wall4 \<and>
   distinct example_entities \<and>
   card {b \<in> set example_entities.
          \<not> is_static_entity b \<and> euclid_sqr (origin wall4) (origin b) \<le> real_of_int (3 ^ 2)} = 3 \<and>
   card {b \<in> set example_entities.
          \<not> is_static_entity b \<and> euclid_sqr (origin far5) (origin b) \<le> real_of_int (3 ^ 2)} = 1"
proof -
  have c1: "length (neighbourhood euclid_sqr 3 example_entities wall4) =
      card {b \<in> set example_entities.
          \<not> is_static_entity b \<and> euclid_sqr (origin wall4) (origin b) \<le> real_of_int (3 ^ 2)}"
    using detect_piles_spec [of euclid_sqr 3 2 example_entities wall4] example_distinct by blast
  have c2: "length (neighbourhood euclid_sqr 3 example_entities far5) =
      card {b \<in> set example_entities.
          \<not> is_static_entity b \<and> euclid_sqr (origin far5) (origin b) \<le> real_of_int (3 ^ 2)}"
    using detect_piles_spec [of euclid_sqr 3 2 example_entities far5] example_distinct by blast
  show ?thesis
    using c1 [symmetric] c2 [symmetric] by (simp only: example_neighbourhoods example_piles example_distinct example_static) simp
qed

section \<open>The mitigation pass\<close>

text \<open>
  \<open>handle_entity\<close> raises only in the freeze branch, and only for an entity without a
  physics object; an entity that is not static has one.
\<close>

lemma handle_entity_Inl:
  "handle_entity rules entity = Inl err \<Longrightarrow> err = AttributeError \<and> physics_object entity = None"
  by (induction rules) (auto split: if_splits option.splits)

lemma handle_entity_returns:
  "physics_object entity \<noteq> None \<Longrightarrow> \<exists>h c. handle_entity rules entity = Inr (h, c)"
  using handle_entity_Inl [of rules entity]
  by (cases "handle_entity rules entity") auto

lemma not_static_physics:
  "\<not> is_static_entity entity \<Longrightarrow> \<exists>p. physics_object entity = Some p \<and> motion_enabled p"
  by (cases "physics_object entity") (auto simp: is_static_entity_def)

lemma handle_entity_result:
  "handle_entity rules entity = Inr (h, c) \<Longrightarrow>
   reports_handled rules entity = h \<and> calls_of rules entity = c"
  by (simp add: reports_handled_def calls_of_def)

text \<open>
  Step 3 handles the members that \<open>submitted\<close> lists: the two loops over the piles are
  one loop over their concatenation, and the ids handled so far are the ids seen.
\<close>

lemma submitted_subset: "set (submitted seen ms) \<subseteq> set ms"
  by (induction seen ms rule: submitted.induct) auto

lemma submitted_ids: "snd ` set (submitted seen ms) = snd ` set ms - set seen"
  by (induction seen ms rule: submitted.induct) (auto simp: image_iff)

lemma submitted_distinct: "distinct (map snd (submitted seen ms))"
proof (induction seen ms rule: submitted.induct)
  case (1 seen)
  then show ?case by simp
next
  case (2 seen entity idx members)
  have "idx \<notin> snd ` set (submitted (seen @ [idx]) members)"
    by (simp add: submitted_ids)
  with 2 show ?case by auto
qed

lemma clear_pile_submitted:
  assumes "\<forall>(e, i) \<in> set pile. physics_object e \<noteq> None"
  shows "clear_pile rules pile (hi, cnt, calls) =
     Inr (hi @ map snd (submitted hi pile),
          cnt + int (length (filter (\<lambda>x. reports_handled rules (fst x)) (submitted hi pile))),
          calls @ concat (map (\<lambda>x. calls_of rules (fst x)) (submitted hi pile)))"
  using assms
proof (induction pile arbitrary: hi cnt calls)
  case Nil
  then show ?case by simp
next
  case (Cons m pile)
  obtain e i where m: "m = (e, i)" by (cases m)
  from Cons.prems m have "physics_object e \<noteq> None" by simp
  then obtain h c where hc: "handle_entity rules e = Inr (h, c)"
    using handle_entity_returns by blast
  from Cons.prems have rest: "\<forall>(e, i) \<in> set pile. physics_object e \<noteq> None" by simp
  show ?case
    using Cons.IH [OF rest] handle_entity_result [OF hc] hc m by simp
qed

lemma clear_pile_append:
  "clear_pile rules (a @ b) st =
     (case clear_pile rules a st of Inl err \<Rightarrow> Inl err | Inr st' \<Rightarrow> clear_pile rules b st')"
proof (induction rules a st rule: clear_pile.induct)
  case (1 rules st)
  then show ?case by simp
next
  case (2 rules entity idx pile handled_indexes handled_entities_count calls)
  then show ?case by (auto split: sum.splits)
qed

lemma clear_piles_concat:
  "clear_piles rules piles st = clear_pile rules (concat piles) st"
  by (induction piles arbitrary: st) (auto simp: clear_pile_append split: sum.splits)

lemma clear_piles_submitted:
  assumes "\<forall>(e, i) \<in> set (concat piles). physics_object e \<noteq> None"
  shows "clear_piles rules piles ([], 0, []) =
     Inr (map snd (submitted [] (concat piles)),
          int (length (filter (\<lambda>x. reports_handled rules (fst x)) (submitted [] (concat piles)))),
          concat (map (\<lambda>x. calls_of rules (fst x)) (submitted [] (concat piles))))"
  using clear_pile_submitted [OF assms, of rules "[]" 0 "[]"] by (simp add: clear_piles_concat)

lemma detected_have_physics:
  "\<forall>(e, i) \<in> set (concat (detect_piles d r2 mx (collect_entities S) (collect_entities A))).
     physics_object e \<noteq> None"
  using pile_member [of _ d r2 mx S A] not_static_physics by fastforce

lemma detected_clear:
  "clear_piles rules (detect_piles d r2 mx (collect_entities S) (collect_entities A)) ([], 0, []) =
     Inr (map snd (submitted [] (concat (detect_piles d r2 mx (collect_entities S) (collect_entities A)))),
          int (length (filter (\<lambda>x. reports_handled rules (fst x))
            (submitted [] (concat (detect_piles d r2 mx (collect_entities S) (collect_entities A)))))),
          concat (map (\<lambda>x. calls_of rules (fst x))
            (submitted [] (concat (detect_piles d r2 mx (collect_entities S) (collect_entities A))))))"
  by (rule clear_piles_submitted [OF detected_have_physics])

lemma count_distinct_ids:
  assumes "distinct (map snd xs)"
  shows "length (filter (\<lambda>x. P (fst x)) xs) = card {i. \<exists>e. (e, i) \<in> set xs \<and> P e}"
proof -
  have "distinct (map snd (filter (\<lambda>x. P (fst x)) xs))"
    using assms by (rule distinct_map_filter)
  then have "length (filter (\<lambda>x. P (fst x)) xs) = card (set (map snd (filter (\<lambda>x. P (fst x)) xs)))"
    by (metis distinct_card length_map)
  also have "set (map snd (filter (\<lambda>x. P (fst x)) xs)) = {i. \<exists>e. (e, i) \<in> set xs \<and> P e}"
    by (auto simp: image_iff)
  finally show ?thesis .
qed

text \<open>The pass as a whole, once the two parameters have been read.\<close>

lemma config_get_Inl: "config_get c s k = Inl err \<Longrightarrow> err = KeyError"
  by (auto simp: config_get_def split: option.splits)

lemma py_int_Inl: "py_int s = Inl err \<Longrightarrow> err = ValueError"
  by (auto simp: py_int_def split: option.splits)

lemma perform_check_parsed:
  assumes "config_get (config g) ''piles'' ''max_entities_per_pile'' = Inr s1"
    and "py_int s1 = Inr mx"
    and "config_get (config g) ''piles'' ''pile_radius'' = Inr s2"
    and "py_int s2 = Inr r"
  shows "perform_check d g S =
     (case clear_piles (entity_actions g)
             (detect_piles d (r ^ 2) mx (collect_entities S) (collect_entities S)) ([], 0, []) of
        Inl err \<Rightarrow> Inl err
      | Inr (handled_indexes, handled_entities_count, calls) \<Rightarrow>
          Inr (g\<lparr>total_checks_issued := total_checks_issued g + 1,
                 total_handled_entities_count :=
                   total_handled_entities_count g + handled_entities_count\<rparr>,
               calls))"
  using assms by (simp add: perform_check_def Let_def)

lemma perform_check_Inr:
  assumes "perform_check d g S = Inr (g', calls)"
  shows "total_checks_issued g' = total_checks_issued g + 1"
  using assms
  by (auto simp: perform_check_def Let_def split: sum.splits prod.splits)

text \<open>The pass on the example entities, with the example rules and with a rule that freezes everything.\<close>

lemma example_classnames: "classname prop1 = ''prop_physics''" "classname prop2 = ''prop_physics''"
  "classname gib3 = ''gib''" "classname wall4 = ''func_wall''"
  by (simp_all add: prop1_def prop2_def gib3_def wall4_def)

lemma example_physics: "physics_object prop1 = Some moving" "physics_object prop2 = Some moving"
  "physics_object gib3 = Some moving" "physics_object wall4 = None"
  by (simp_all add: prop1_def prop2_def gib3_def wall4_def)

lemma example_handled:
  "handle_entity example_rules prop1 = Inr (True, [Remove_call prop1])"
  "handle_entity example_rules prop2 = Inr (True, [Remove_call prop2])"
  "handle_entity example_rules gib3 = Inr (False, [])"
  by (simp_all add: example_rules_def example_classnames startswith_def endswith_def)

lemma example_frozen:
  "handle_entity [\<lparr>rule_classname = ''*'', action = ''freeze''\<rparr>] prop1 = Inr (True, [Freeze_call prop1])"
  "handle_entity [\<lparr>rule_classname = ''*'', action = ''freeze''\<rparr>] prop2 = Inr (True, [Freeze_call prop2])"
  "handle_entity [\<lparr>rule_classname = ''*'', action = ''freeze''\<rparr>] gib3 = Inr (True, [Freeze_call gib3])"
  "handle_entity [\<lparr>rule_classname = ''*'', action = ''freeze''\<rparr>] wall4 = Inl AttributeError"
  by (simp_all add: example_physics startswith_def endswith_def)

lemma example_globals_fields:
  "config example_globals = example_config" "entity_actions example_globals = example_rules"
  "total_checks_issued example_globals = 0" "total_handled_entities_count example_globals = 0"
  by (simp_all add: example_globals_def)

lemma example_cleared:
  "clear_piles example_rules
     [[(prop1, 1), (prop2, 2), (gib3, 3)], [(prop1, 1), (prop2, 2), (gib3, 3)],
      [(prop1, 1), (prop2, 2), (gib3, 3)], [(prop1, 1), (prop2, 2), (gib3, 3)]] ([], 0, []) =
   Inr ([1, 2, 3], 2, [Remove_call prop1, Remove_call prop2])"
  by (simp add: example_handled)

lemma example_cleared_frozen:
  "clear_piles [\<lparr>rule_classname = ''*'', action = ''freeze''\<rparr>]
     [[(prop1, 1), (prop2, 2), (gib3, 3)], [(prop1, 1), (prop2, 2), (gib3, 3)],
      [(prop1, 1), (prop2, 2), (gib3, 3)], [(prop1, 1), (prop2, 2), (gib3, 3)]] ([], 0, []) =
   Inr ([1, 2, 3], 3, [Freeze_call prop1, Freeze_call prop2, Freeze_call gib3])"
  by (simp add: example_frozen del: handle_entity.simps)

lemma perform_check_ex:
  "perform_check euclid_sqr example_globals example_entities =
     Inr (example_globals\<lparr>total_checks_issued := 1, total_handled_entities_count := 2\<rparr>,
          [Remove_call prop1, Remove_call prop2])"
proof -
  have c1: "config_get (config example_globals) ''piles'' ''max_entities_per_pile'' = Inr ''2''"
    by (simp add: example_globals_fields example_max_entities)
  have c2: "config_get (config example_globals) ''piles'' ''pile_radius'' = Inr ''3''"
    by (simp add: example_globals_fields example_pile_radius)
  show ?thesis
    unfolding perform_check_parsed [OF c1 py_int_2 c2 py_int_3] example_piles
      example_globals_fields example_cleared
    by simp
qed

lemma perform_check_freeze_ex:
  "perform_check euclid_sqr
     (example_globals\<lparr>entity_actions := [\<lparr>rule_classname = ''*'', action = ''freeze''\<rparr>]\<rparr>)
     example_entities =
     Inr (example_globals\<lparr>entity_actions := [\<lparr>rule_classname = ''*'', action = ''freeze''\<rparr>],
            total_checks_issued := 1, total_handled_entities_count := 3\<rparr>,
          [Freeze_call prop1, Freeze_call prop2, Freeze_call gib3])"
proof -
  let ?g = "example_globals\<lparr>entity_actions := [\<lparr>rule_classname = ''*'', action = ''freeze''\<rparr>]\<rparr>"
  have c1: "config_get (config ?g) ''piles'' ''max_entities_per_pile'' = Inr ''2''"
    by (simp add: example_globals_fields example_max_entities)
  have c2: "config_get (config ?g) ''piles'' ''pile_radius'' = Inr ''3''"
    by (simp add: example_globals_fields example_pile_radius)
  have e: "entity_actions ?g = [\<lparr>rule_classname = ''*'', action = ''freeze''\<rparr>]"
    by simp
  show ?thesis
    unfolding perform_check_parsed [OF c1 py_int_2 c2 py_int_3] example_piles e example_cleared_frozen
    by (simp add: example_globals_fields)
qed

lemma perform_check_no_piles:
  "perform_check d (example_globals\<lparr>config := config_without_piles\<rparr>) S = Inl KeyError"
  by (simp add: perform_check_def config_get_def config_without_piles_def)

text \<open>
  Claim C5. When the two pile parameters of the configuration are read, the pass
  completes; it passes to the rule engine the members \<open>sub\<close> of the piles, each id once
  (the ids handled are distinct and are all the ids of the piles), whatever the rule
  engine reported for it; \<open>total_checks_issued\<close> grows by 1 and
  \<open>total_handled_entities_count\<close> by \<open>n\<close>, the number of ids for which the rule engine
  reported True.
\<close>

theorem perform_check_once_per_id:
  assumes "config_get (config g) ''piles'' ''max_entities_per_pile'' = Inr s1"
    and "py_int s1 = Inr mx"
    and "config_get (config g) ''piles'' ''pile_radius'' = Inr s2"
    and "py_int s2 = Inr r"
    and "piles = detect_piles d (r ^ 2) mx (collect_entities S) (collect_entities S)"
    and "sub = submitted [] (concat piles)"
    and "n = int (length (filter (\<lambda>x. reports_handled (entity_actions g) (fst x)) sub))"
  shows "clear_piles (entity_actions g) piles ([], 0, []) =
           Inr (map snd sub, n, concat (map (\<lambda>x. calls_of (entity_actions g) (fst x)) sub)) \<and>
         distinct (map snd sub) \<and>
         set (map snd sub) = snd ` set (concat piles) \<and>
         n = int (card {i. \<exists>e. (e, i) \<in> set sub \<and> reports_handled (entity_actions g) e}) \<and>
         perform_check d g S =
           Inr (g\<lparr>total_checks_issued := total_checks_issued g + 1,
                  total_handled_entities_count := total_handled_entities_count g + n\<rparr>,
                concat (map (\<lambda>x. calls_of (entity_actions g) (fst x)) sub))"
proof (intro conjI)
  show c: "clear_piles (entity_actions g) piles ([], 0, []) =
           Inr (map snd sub, n, concat (map (\<lambda>x. calls_of (entity_actions g) (fst x)) sub))"
    unfolding assms(5-7) by (rule detected_clear)
  show d: "distinct (map snd sub)"
    unfolding assms(6) by (rule submitted_distinct)
  show "set (map snd sub) = snd ` set (concat piles)"
    unfolding assms(6) by (simp add: submitted_ids)
  show "n = int (card {i. \<exists>e. (e, i) \<in> set sub \<and> reports_handled (entity_actions g) e})"
    unfolding assms(7) using count_distinct_ids [OF d] by simp
  show "perform_check d g S =
           Inr (g\<lparr>total_checks_issued := total_checks_issued g + 1,
                  total_handled_entities_count := total_handled_entities_count g + n\<rparr>,
                concat (map (\<lambda>x. calls_of (entity_actions g) (fst x)) sub))"
    using c perform_check_parsed [OF assms(1-4), of d S] by (simp add: assms(5))
qed

theorem perform_check_once_per_id_witness:
  "config_get (config example_globals) ''piles'' ''max_entities_per_pile'' = Inr ''2'' \<and>
   py_int ''2'' = Inr 2 \<and>
   config_get (config example_globals) ''piles'' ''pile_radius'' = Inr ''3'' \<and>
   py_int ''3'' = Inr 3 \<and>
   submitted []
     (concat (detect_piles euclid_sqr (3 ^ 2) 2 (collect_entities example_entities)
        (collect_entities example_entities))) = [(prop1, 1), (prop2, 2), (gib3, 3)] \<and>
   clear_piles (entity_actions example_globals)
     (detect_piles euclid_sqr (3 ^ 2) 2 (collect_entities example_entities)
        (collect_entities example_entities)) ([], 0, []) =
     Inr ([1, 2, 3], 2, [Remove_call prop1, Remove_call prop2]) \<and>
   perform_check euclid_sqr example_globals example_entities =
     Inr (example_globals\<lparr>total_checks_issued := 1, total_handled_entities_count := 2\<rparr>,
          [Remove_call prop1, Remove_call prop2])"
proof -
  have c1: "config_get (config example_globals) ''piles'' ''max_entities_per_pile'' = Inr ''2''"
    by (simp add: example_globals_fields example_max_entities)
  have c2: "config_get (config example_globals) ''piles'' ''pile_radius'' = Inr ''3''"
    by (simp add: example_globals_fields example_pile_radius)
  have sub: "submitted []
     (concat (detect_piles euclid_sqr (3 ^ 2) 2 (collect_entities example_entities)
        (collect_entities example_entities))) = [(prop1, 1), (prop2, 2), (gib3, 3)]"
    by (simp only: example_piles) simp
  have rh: "reports_handled example_rules prop1" "reports_handled example_rules prop2"
    "\<not> reports_handled example_rules gib3"
    by (simp_all add: reports_handled_def example_handled)
  have co: "calls_of example_rules prop1 = [Remove_call prop1]"
    "calls_of example_rules prop2 = [Remove_call prop2]" "calls_of example_rules gib3 = []"
    by (simp_all add: calls_of_def example_handled)
  note t = perform_check_once_per_id [OF c1 py_int_2 c2 py_int_3 refl refl refl,
      of euclid_sqr example_entities]
  from t have "clear_piles (entity_actions example_globals)
     (detect_piles euclid_sqr (3 ^ 2) 2 (collect_entities example_entities)
        (collect_entities example_entities)) ([], 0, []) =
     Inr ([1, 2, 3], 2, [Remove_call prop1, Remove_call prop2])"
    by (simp add: example_piles_9 rh co example_globals_fields)
  moreover from t have "perform_check euclid_sqr example_globals example_entities =
     Inr (example_globals\<lparr>total_checks_issued := 1, total_handled_entities_count := 2\<rparr>,
          [Remove_call prop1, Remove_call prop2])"
    by (simp add: example_piles_9 rh co example_globals_fields)
  ultimately show ?thesis using c1 c2 py_int_2 py_int_3 sub by (simp add: example_piles_9)
qed

text \<open>
  Claim C10. Every entity that the pass submits to the rule engine is a member of a
  detected pile, so it was not static when the piles were detected: it has a physics
  object, with motion enabled, and the freeze branch of \<open>handle_entity\<close> does not raise
  for it. Step 3 never raises on detected piles, and the pass never raises
  AttributeError. The model reads an entity's attributes in step 3 as they were in
  step 2: the calls made in between act on other entities only.
\<close>

theorem submitted_entities_have_physics:
  assumes "piles = detect_piles d r2 mx (collect_entities S) (collect_entities S)"
  shows "set (submitted [] (concat piles)) \<subseteq> set (concat piles) \<and>
         (\<forall>(e, i) \<in> set (concat piles).
            e \<in> set S \<and> \<not> is_static_entity e \<and>
            (\<exists>p. physics_object e = Some p \<and> motion_enabled p) \<and>
            handle_entity rules e \<noteq> Inl AttributeError) \<and>
         (\<forall>err. clear_piles rules piles ([], 0, []) \<noteq> Inl err) \<and>
         perform_check d g S \<noteq> Inl AttributeError"
proof (intro conjI)
  show "set (submitted [] (concat piles)) \<subseteq> set (concat piles)"
    by (rule submitted_subset)
  show "\<forall>(e, i) \<in> set (concat piles).
            e \<in> set S \<and> \<not> is_static_entity e \<and>
            (\<exists>p. physics_object e = Some p \<and> motion_enabled p) \<and>
            handle_entity rules e \<noteq> Inl AttributeError"
  proof -
    have "e \<in> set S \<and> \<not> is_static_entity e \<and>
          (\<exists>p. physics_object e = Some p \<and> motion_enabled p) \<and>
          handle_entity rules e \<noteq> Inl AttributeError"
      if "(e, i) \<in> set (concat piles)" for e i
    proof -
      from that obtain pile where "pile \<in> set piles" and "(e, i) \<in> set pile" by auto
      then have m: "e \<in> set S \<and> \<not> is_static_entity e \<and> i = index e"
        unfolding assms using pile_member by blast
      then obtain p where p: "physics_object e = Some p \<and> motion_enabled p"
        using not_static_physics by blast
      have "handle_entity rules e \<noteq> Inl AttributeError"
        using handle_entity_Inl [of rules e AttributeError] p by auto
      with m p show ?thesis by blast
    qed
    then show ?thesis by blast
  qed
  show "\<forall>err. clear_piles rules piles ([], 0, []) \<noteq> Inl err"
    unfolding assms by (simp add: detected_clear)
  show "perform_check d g S \<noteq> Inl AttributeError"
  proof
    assume a: "perform_check d g S = Inl AttributeError"
    show False
    proof (cases "config_get (config g) ''piles'' ''max_entities_per_pile''")
      case (Inl e1)
      then show False using a config_get_Inl [OF Inl] by (simp add: perform_check_def)
    next
      case s1: (Inr s1)
      show False
      proof (cases "py_int s1")
        case (Inl e2)
        then show False using a s1 py_int_Inl [OF Inl] by (simp add: perform_check_def)
      next
        case mx: (Inr mx)
        show False
        proof (cases "config_get (config g) ''piles'' ''pile_radius''")
          case (Inl e3)
          then show False using a s1 mx config_get_Inl [OF Inl] by (simp add: perform_check_def)
        next
          case s2: (Inr s2)
          show False
          proof (cases "py_int s2")
            case (Inl e4)
            then show False using a s1 mx s2 py_int_Inl [OF Inl] by (simp add: perform_check_def)
          next
            case r: (Inr r)
            show False
              using a perform_check_parsed [OF s1 mx s2 r, of d S] by (simp add: detected_clear)
          qed
        qed
      qed
    qed
  qed
qed

theorem submitted_entities_have_physics_witness:
  "is_static_entity wall4 \<and>
   handle_entity [\<lparr>rule_classname = ''*'', action = ''freeze''\<rparr>] wall4 = Inl AttributeError \<and>
   concat (detect_piles euclid_sqr (3 ^ 2) 2 (collect_entities example_entities)
        (collect_entities example_entities)) =
     [(prop1, 1), (prop2, 2), (gib3, 3), (prop1, 1), (prop2, 2), (gib3, 3),
      (prop1, 1), (prop2, 2), (gib3, 3), (prop1, 1), (prop2, 2), (gib3, 3)] \<and>
   handle_entity [\<lparr>rule_classname = ''*'', action = ''freeze''\<rparr>] gib3 =
     Inr (True, [Freeze_call gib3]) \<and>
   perform_check euclid_sqr
     (example_globals\<lparr>entity_actions := [\<lparr>rule_classname = ''*'', action = ''freeze''\<rparr>]\<rparr>)
     example_entities =
     Inr (example_globals\<lparr>entity_actions := [\<lparr>rule_classname = ''*'', action = ''freeze''\<rparr>],
            total_checks_issued := 1, total_handled_entities_count := 3\<rparr>,
          [Freeze_call prop1, Freeze_call prop2, Freeze_call gib3])"
proof -
  note t = submitted_entities_have_physics [OF refl, of euclid_sqr "3 ^ 2" 2 example_entities
      "[\<lparr>rule_classname = ''*'', action = ''freeze''\<rparr>]"
      "example_globals\<lparr>entity_actions := [\<lparr>rule_classname = ''*'', action = ''freeze''\<rparr>]\<rparr>"]
  have m: "(gib3, 3) \<in> set (concat (detect_piles euclid_sqr (3 ^ 2) 2
      (collect_entities example_entities) (collect_entities example_entities)))"
    by (simp only: example_piles) simp
  from t m have "handle_entity [\<lparr>rule_classname = ''*'', action = ''freeze''\<rparr>] gib3 \<noteq> Inl AttributeError"
    by blast
  then show ?thesis
    by (simp add: example_static example_frozen example_piles_9 perform_check_freeze_ex del: handle_entity.simps)
qed

section \<open>The watchdog tick\<close>

text \<open>
  Claim C4, as the code has it. Without a previous sample the tick only stores the
  current frame: no pass runs, the globals are unchanged. With a previous sample and a
  delta of at most the threshold, the tick runs the pass exactly once (a pass that
  completes has counted one check); with a larger delta no pass runs. Whenever the tick
  returns without an exception, the current frame is the new previous sample; when the
  pass raises, the delta has been stored and the previous sample is kept.
\<close>

theorem watch_tick:
  "(last_watch_frame self = None \<longrightarrow>
      watch d cur S self g = (None, self\<lparr>last_watch_frame := Some cur\<rparr>, g, [])) \<and>
   (\<forall>prev. last_watch_frame self = Some prev \<and> cur - prev \<le> min_frames_per_interval self \<longrightarrow>
      watch d cur S self g =
        (case perform_check d g S of
           Inl err \<Rightarrow> (Some err, self\<lparr>last_delta_frame := Some (cur - prev)\<rparr>, g, [])
         | Inr (g', calls) \<Rightarrow>
             (None, self\<lparr>last_delta_frame := Some (cur - prev), last_watch_frame := Some cur\<rparr>,
              g', calls)) \<and>
      (\<forall>g' calls. perform_check d g S = Inr (g', calls) \<longrightarrow>
         total_checks_issued g' = total_checks_issued g + 1)) \<and>
   (\<forall>prev. last_watch_frame self = Some prev \<and> \<not> cur - prev \<le> min_frames_per_interval self \<longrightarrow>
      watch d cur S self g =
        (None, self\<lparr>last_delta_frame := Some (cur - prev), last_watch_frame := Some cur\<rparr>, g, [])) \<and>
   (fst (watch d cur S self g) = None \<longrightarrow>
      last_watch_frame (fst (snd (watch d cur S self g))) = Some cur)"
  using perform_check_Inr [of d g S]
  by (auto simp: watch_def Let_def split: option.splits sum.splits prod.splits)

theorem watch_tick_witness:
  "watch euclid_sqr 100 example_entities (example_watcher\<lparr>last_watch_frame := None\<rparr>)
     example_globals =
     (None, example_watcher\<lparr>last_watch_frame := Some 100\<rparr>, example_globals, []) \<and>
   watch euclid_sqr 150 example_entities example_watcher example_globals =
     (None, example_watcher\<lparr>last_delta_frame := Some 50, last_watch_frame := Some 150\<rparr>,
      example_globals\<lparr>total_checks_issued := 1, total_handled_entities_count := 2\<rparr>,
      [Remove_call prop1, Remove_call prop2]) \<and>
   watch euclid_sqr 300 example_entities example_watcher example_globals =
     (None, example_watcher\<lparr>last_delta_frame := Some 200, last_watch_frame := Some 300\<rparr>,
      example_globals, [])"
proof -
  have w: "last_watch_frame example_watcher = Some 100"
    "min_frames_per_interval example_watcher = 126"
    by (simp_all add: example_watcher_def)
  have a: "watch euclid_sqr 100 example_entities (example_watcher\<lparr>last_watch_frame := None\<rparr>)
     example_globals =
     (None, example_watcher\<lparr>last_watch_frame := Some 100\<rparr>, example_globals, [])"
    using watch_tick [of "example_watcher\<lparr>last_watch_frame := None\<rparr>" euclid_sqr 100
        example_entities example_globals]
    by simp
  have b: "watch euclid_sqr 150 example_entities example_watcher example_globals =
     (None, example_watcher\<lparr>last_delta_frame := Some 50, last_watch_frame := Some 150\<rparr>,
      example_globals\<lparr>total_checks_issued := 1, total_handled_entities_count := 2\<rparr>,
      [Remove_call prop1, Remove_call prop2])"
    using watch_tick [of example_watcher euclid_sqr 150 example_entities example_globals]
    by (simp add: w perform_check_ex)
  have c: "watch euclid_sqr 300 example_entities example_watcher example_globals =
     (None, example_watcher\<lparr>last_delta_frame := Some 200, last_watch_frame := Some 300\<rparr>,
      example_globals, [])"
    using watch_tick [of example_watcher euclid_sqr 300 example_entities example_globals]
    by (simp add: w)
  from a b c show ?thesis by simp
qed

text \<open>
  The claim that the current frame is stored in every case fails: with a configuration
  that lacks the section \<^verbatim>\<open>piles\<close> the pass raises KeyError, and the tick ends before
  the assignment of the new sample.
\<close>

theorem watch_raise_counterexample:
  "last_watch_frame example_watcher = Some 100 \<and>
   150 - 100 \<le> min_frames_per_interval example_watcher \<and>
   watch euclid_sqr 150 example_entities example_watcher
     (example_globals\<lparr>config := config_without_piles\<rparr>) =
     (Some KeyError, example_watcher\<lparr>last_delta_frame := Some 50\<rparr>,
      example_globals\<lparr>config := config_without_piles\<rparr>, []) \<and>
   last_watch_frame (fst (snd (watch euclid_sqr 150 example_entities example_watcher
     (example_globals\<lparr>config := config_without_piles\<rparr>)))) \<noteq> Some 150"
  by (simp add: watch_def perform_check_no_piles example_watcher_def)

section \<open>The automatic threshold\<close>

text \<open>
  Rounding to the nearest integer is off by at most one half, and \<open>exponent\<close> is the
  binary exponent of its argument. So \<open>round_double\<close> is determined by the exponent,
  and in the normal range its relative error is at most \<open>2 powi (- 53)\<close>.
\<close>

lemma round_half_even_error: "\<bar>of_int (round_half_even x) - x\<bar> \<le> 1 / 2"
proof -
  define f where "f = \<lfloor>x\<rfloor>"
  have f: "of_int f \<le> x" "x < of_int f + 1" unfolding f_def by linarith+
  have "round_half_even x =
      (if x - of_int f < 1 / 2 then f else if 1 / 2 < x - of_int f then f + 1
       else if even f then f else f + 1)"
    by (simp add: round_half_even_def Let_def f_def)
  with f show ?thesis by (auto simp: abs_if)
qed

lemma exponent_bounds:
  assumes "x \<noteq> 0"
  shows "2 powi (exponent x) \<le> \<bar>x\<bar> \<and> \<bar>x\<bar> < 2 powi (exponent x + 1)"
proof (cases "1 \<le> \<bar>x\<bar>")
  case True
  define n where "n = \<lfloor>\<bar>x\<bar>\<rfloor>"
  have n: "0 < n" "of_int n \<le> \<bar>x\<bar>" "\<bar>x\<bar> < of_int n + 1"
    using True unfolding n_def by linarith+
  have e: "exponent x = bitlen n - 1"
    using True by (simp add: exponent_def n_def)
  have b1: "1 \<le> bitlen n" using n(1) by (simp add: bitlen_alt_def)
  from bitlen_bounds [OF n(1)] have lo: "2 ^ nat (bitlen n - 1) \<le> n" and hi: "n < 2 ^ nat (bitlen n)"
    by simp_all
  have "(2::real) powi (bitlen n - 1) = 2 ^ nat (bitlen n - 1)"
    using b1 by (simp add: power_int_def)
  also have "\<dots> \<le> of_int n" using lo by (metis of_int_le_iff of_int_numeral of_int_power)
  finally have l: "(2::real) powi (bitlen n - 1) \<le> \<bar>x\<bar>" using n(2) by linarith
  have "n + 1 \<le> 2 ^ nat (bitlen n)" using hi by simp
  then have "of_int (n + 1) \<le> (2::real) ^ nat (bitlen n)"
    by (metis of_int_le_iff of_int_numeral of_int_power)
  moreover have "(2::real) powi (bitlen n - 1 + 1) = 2 ^ nat (bitlen n)"
    using b1 by (simp add: power_int_def)
  ultimately have h: "\<bar>x\<bar> < (2::real) powi (bitlen n - 1 + 1)" using n(3) by simp
  from l h e show ?thesis by simp
next
  case False
  define y where "y = 1 / \<bar>x\<bar>"
  define m where "m = \<lceil>y\<rceil> - 1"
  have xpos: "0 < \<bar>x\<bar>" using assms by simp
  have y1: "1 < y" using False xpos by (simp add: y_def)
  have m: "0 < m" "of_int m < y" "y \<le> of_int m + 1"
    using y1 unfolding m_def by linarith+
  have e: "exponent x = - bitlen m"
    using False by (simp add: exponent_def m_def y_def)
  have b1: "1 \<le> bitlen m" using m(1) by (simp add: bitlen_alt_def)
  from bitlen_bounds [OF m(1)] have lo: "2 ^ nat (bitlen m - 1) \<le> m" and hi: "m < 2 ^ nat (bitlen m)"
    by simp_all
  have "m + 1 \<le> 2 ^ nat (bitlen m)" using hi by simp
  then have "of_int (m + 1) \<le> (2::real) ^ nat (bitlen m)"
    by (metis of_int_le_iff of_int_numeral of_int_power)
  then have yhi: "y \<le> 2 ^ nat (bitlen m)" using m(3) by simp
  have "(2::real) ^ nat (bitlen m - 1) \<le> of_int m"
    using lo by (metis of_int_le_iff of_int_numeral of_int_power)
  then have ylo: "2 ^ nat (bitlen m - 1) < y" using m(2) by linarith
  have x_eq: "\<bar>x\<bar> = 1 / y" using xpos by (simp add: y_def)
  have p1: "(2::real) powi (- bitlen m) = 1 / 2 ^ nat (bitlen m)"
    using b1 by (simp add: power_int_def field_simps)
  have p2: "(2::real) powi (- bitlen m + 1) = 1 / 2 ^ nat (bitlen m - 1)"
    using b1 by (simp add: power_int_def field_simps)
  have l: "(2::real) powi (- bitlen m) \<le> \<bar>x\<bar>"
    unfolding p1 x_eq using yhi y1 by (simp add: frac_le)
  have h: "\<bar>x\<bar> < (2::real) powi (- bitlen m + 1)"
    unfolding p2 x_eq using ylo by (simp add: frac_less2)
  from l h e show ?thesis by simp
qed

lemma exponent_unique:
  assumes "x \<noteq> 0" and "2 powi k \<le> \<bar>x\<bar>" and "\<bar>x\<bar> < 2 powi (k + 1)"
  shows "exponent x = k"
proof -
  from exponent_bounds [OF assms(1)]
  have lo: "2 powi (exponent x) \<le> \<bar>x\<bar>" and hi: "\<bar>x\<bar> < 2 powi (exponent x + 1)" by simp_all
  have "(2::real) powi k < 2 powi (exponent x + 1)" using assms(2) hi by linarith
  then have a: "k < exponent x + 1"
    by (metis not_le one_le_numeral power_int_increasing not_less)
  have "(2::real) powi (exponent x) < 2 powi (k + 1)" using lo assms(3) by linarith
  then have b: "exponent x < k + 1"
    by (metis not_le one_le_numeral power_int_increasing not_less)
  from a b show ?thesis by simp
qed

lemma round_double_at:
  assumes "x \<noteq> 0" and "2 powi k \<le> \<bar>x\<bar>" and "\<bar>x\<bar> < 2 powi (k + 1)" and "- 1022 \<le> k"
  shows "round_double x = of_int (round_half_even (x / 2 powi (k - 52))) * 2 powi (k - 52)"
proof -
  have e: "exponent x = k" by (rule exponent_unique [OF assms(1-3)])
  have m: "max (k - 52) (- 1074) = k - 52" using assms(4) by simp
  show ?thesis
    unfolding round_double_def Let_def e m using assms(1) by (simp only: if_False)
qed

lemma round_double_error:
  assumes "2 powi (- 1022) \<le> \<bar>x\<bar>"
  shows "\<bar>round_double x - x\<bar> \<le> \<bar>x\<bar> / 2 ^ 53"
proof -
  have pos: "(0::real) < 2 powi (- 1022)" by simp
  then have x0: "x \<noteq> 0" using assms by auto
  define k where "k = exponent x"
  from exponent_bounds [OF x0]
  have lo: "2 powi k \<le> \<bar>x\<bar>" and hi: "\<bar>x\<bar> < 2 powi (k + 1)" by (simp_all add: k_def)
  have "(2::real) powi (- 1022) < 2 powi (k + 1)" using assms hi by linarith
  then have "- 1022 < k + 1"
    by (metis not_le one_le_numeral power_int_increasing not_less)
  then have k: "- 1022 \<le> k" by simp
  define e where "e = k - 52"
  define y where "y = x / 2 powi e"
  have r: "round_double x = of_int (round_half_even y) * 2 powi e"
    unfolding y_def e_def by (rule round_double_at [OF x0 lo hi k])
  have pe: "(0::real) < 2 powi e" by simp
  have yx: "y * 2 powi e = x" using pe by (simp add: y_def)
  have "round_double x - x = (of_int (round_half_even y) - y) * 2 powi e"
    by (simp add: r left_diff_distrib yx)
  then have "\<bar>round_double x - x\<bar> = \<bar>of_int (round_half_even y) - y\<bar> * 2 powi e"
    using pe by (simp add: abs_mult)
  also have "\<dots> \<le> (1 / 2) * 2 powi e"
    using round_half_even_error [of y] pe by (intro mult_right_mono) simp_all
  also have "\<dots> = 2 powi k / 2 ^ 53"
    unfolding e_def by (simp add: power_int_diff)
  also have "\<dots> \<le> \<bar>x\<bar> / 2 ^ 53"
    using lo by (simp add: divide_right_mono)
  finally show ?thesis .
qed

lemma tiny_le_half: "(2::real) powi (- 1022) \<le> 1 / 2"
  by simp

lemma rounded_between:
  assumes "1 / 2 \<le> x"
  shows "x * (1 - 1 / 2 ^ 53) \<le> round_double x \<and> round_double x \<le> x * (1 + 1 / 2 ^ 53)"
proof -
  have "2 powi (- 1022) \<le> \<bar>x\<bar>" using assms tiny_le_half by linarith
  from round_double_error [OF this] assms
  have "\<bar>round_double x - x\<bar> \<le> x / 2 ^ 53" by simp
  then have 1: "round_double x - x \<le> x / 2 ^ 53" and 2: "x - round_double x \<le> x / 2 ^ 53"
    by linarith+
  have 3: "x * (1 - 1 / 2 ^ 53) = x - x / 2 ^ 53" by (simp add: algebra_simps)
  have 4: "x * (1 + 1 / 2 ^ 53) = x + x / 2 ^ 53" by (simp add: algebra_simps)
  from 1 2 show ?thesis unfolding 3 4 by linarith
qed

text \<open>
  The doubles of the examples: the multiplier \<^verbatim>\<open>0x1.e666666666666p-1\<close>, the quotient and
  the product for the interval \<^verbatim>\<open>0x1.b5e50d79435e5p-2\<close> with 64 ticks per second, and
  for the interval 4.6 with the double nearest to 0.01 as the tick.
\<close>

lemma multiplier_value: "MIN_TICKS_PER_INTERVAL_AUTO_MULTIPLIER = 4278419646001971 / 2 ^ 52"
  unfolding MIN_TICKS_PER_INTERVAL_AUTO_MULTIPLIER_def
  by (subst round_double_at [where k = "- 1"]) (simp_all add: round_half_even_def Let_def)

lemma multiplier_between:
  "95 / 100 * (1 - 1 / 2 ^ 53) \<le> MIN_TICKS_PER_INTERVAL_AUTO_MULTIPLIER \<and>
   MIN_TICKS_PER_INTERVAL_AUTO_MULTIPLIER \<le> 95 / 100"
  by (simp add: multiplier_value)

lemma quotient_64: "round_double (7703525678396901 / 2 ^ 54 / (1 / 64)) = 7703525678396901 / 2 ^ 48"
  by (subst round_double_at [where k = 4]) (simp_all add: round_half_even_def Let_def)

lemma product_64:
  "round_double (7703525678396901 / 2 ^ 48 * (4278419646001971 / 2 ^ 52)) = 26"
  by (subst round_double_at [where k = 4]) (simp_all add: round_half_even_def Let_def)

lemma tick_100: "round_double (1 / 100) = 5764607523034235 / 2 ^ 59"
  by (subst round_double_at [where k = "- 7"]) (simp_all add: round_half_even_def Let_def)

lemma interval_46: "round_double (46 / 10) = 2589569785738035 / 2 ^ 49"
  by (subst round_double_at [where k = 2]) (simp_all add: round_half_even_def Let_def)

lemma quotient_100:
  "round_double (2589569785738035 / 2 ^ 49 / (5764607523034235 / 2 ^ 59)) =
     8092405580431359 / 2 ^ 44"
  by (subst round_double_at [where k = 8]) (simp_all add: round_half_even_def Let_def)

lemma product_100:
  "round_double (8092405580431359 / 2 ^ 44 * (4278419646001971 / 2 ^ 52)) =
     7687785301409791 / 2 ^ 44"
  by (subst round_double_at [where k = 8]) (simp_all add: round_half_even_def Let_def)

text \<open>
  The two roundings and the rounded multiplier change the exact value
  \<open>q = a * 95 / 100\<close> by less than \<open>q / 2 ^ 51\<close>.
\<close>

lemma auto_value:
  fixes a q :: real and N :: int
  assumes N1: "1 \<le> N" and N2: "N < 2 ^ 1000"
    and lo: "of_int N \<le> q * (1 - 1 / 2 ^ 51)"
    and hi: "q * (1 + 1 / 2 ^ 51) < of_int N + 1"
    and q: "q = a * (95 / 100)"
  defines "d \<equiv> round_double a"
  defines "p \<equiv> round_double (d * MIN_TICKS_PER_INTERVAL_AUTO_MULTIPLIER)"
  shows "\<not> is_inf d \<and> \<not> is_inf p \<and> py_trunc p = N \<and> \<lfloor>q\<rfloor> = N"
proof -
  let ?c = MIN_TICKS_PER_INTERVAL_AUTO_MULTIPLIER
  let ?m = "1 - 1 / 2 ^ 53 :: real"
  let ?M = "1 + 1 / 2 ^ 53 :: real"
  have m: "0 < ?m" "?m \<le> 1" and M: "1 \<le> ?M" "?M \<le> 2" by simp_all
  have N1r: "1 \<le> (of_int N :: real)" using N1 by simp
  have N2r: "(of_int N :: real) + 1 \<le> 2 ^ 1000"
  proof -
    have "N + 1 \<le> 2 ^ 1000" using N2 by simp
    then have "(of_int (N + 1) :: real) \<le> of_int (2 ^ 1000)" by (simp only: of_int_le_iff)
    then show ?thesis by simp
  qed
  have qpos: "0 < q"
  proof (rule ccontr)
    assume "\<not> 0 < q"
    then have "q * (1 - 1 / 2 ^ 51) \<le> 0" by (simp add: mult_le_0_iff)
    with lo N1r show False by linarith
  qed
  have q_ge: "of_int N \<le> q"
  proof -
    have "q * (1 - 1 / 2 ^ 51) \<le> q * 1" using qpos by (intro mult_left_mono) simp_all
    with lo show ?thesis by simp
  qed
  have q_lt: "q < of_int N + 1"
  proof -
    have "q * 1 \<le> q * (1 + 1 / 2 ^ 51)" using qpos by (intro mult_left_mono) simp_all
    with hi show ?thesis by simp
  qed
  have a: "a = q * (100 / 95)" using q by simp
  have a1: "1 \<le> a" using q_ge N1r unfolding a by simp
  from rounded_between [of a] a1
  have d_lo: "a * ?m \<le> d" and d_hi: "d \<le> a * ?M" by (simp_all add: d_def)
  from multiplier_between have c_lo: "95 / 100 * ?m \<le> ?c" and c_hi: "?c \<le> 95 / 100"
    by simp_all
  have dc_lo: "(a * ?m) * (95 / 100 * ?m) \<le> d * ?c"
    using d_lo c_lo a1 m by (intro mult_mono) simp_all
  have dc_hi: "d * ?c \<le> (a * ?M) * (95 / 100)"
  proof -
    have "0 \<le> a * ?m" using a1 by (intro mult_nonneg_nonneg) simp_all
    then have "0 \<le> d" using d_lo by linarith
    moreover have "0 \<le> ?c" by (simp add: multiplier_value)
    ultimately show ?thesis using d_hi c_hi a1 M by (intro mult_mono) simp_all
  qed
  have dc_lo': "q * (?m * ?m) \<le> d * ?c" using dc_lo unfolding q by (simp add: algebra_simps)
  have dc_hi': "d * ?c \<le> q * ?M" using dc_hi unfolding q by (simp add: algebra_simps)
  have "1 / 2 \<le> q * (?m * ?m)"
  proof -
    have "1 * (1 / 2) \<le> q * (?m * ?m)"
      using q_ge N1r by (intro mult_mono) simp_all
    then show ?thesis by simp
  qed
  then have dc_half: "1 / 2 \<le> d * ?c" using dc_lo' by linarith
  from rounded_between [OF dc_half]
  have p_lo: "(d * ?c) * ?m \<le> p" and p_hi: "p \<le> (d * ?c) * ?M" by (simp_all add: p_def)
  have "q * (1 - 1 / 2 ^ 51) \<le> q * ((?m * ?m) * ?m)"
    using qpos by (intro mult_left_mono) simp_all
  also have "\<dots> = (q * (?m * ?m)) * ?m" by (simp only: mult.assoc)
  also have "\<dots> \<le> (d * ?c) * ?m" using dc_lo' m by (intro mult_right_mono) simp_all
  also have "\<dots> \<le> p" by (rule p_lo)
  finally have pN: "of_int N \<le> p" using lo by linarith
  have "p \<le> (d * ?c) * ?M" by (rule p_hi)
  also have "\<dots> \<le> (q * ?M) * ?M" using dc_hi' M by (intro mult_right_mono) simp_all
  also have "\<dots> = q * (?M * ?M)" by (simp only: mult.assoc)
  also have "\<dots> \<le> q * (1 + 1 / 2 ^ 51)" using qpos by (intro mult_left_mono) simp_all
  finally have pN1: "p < of_int N + 1" using hi by linarith
  have p0: "0 \<le> p" using pN N1r by linarith
  have fl: "\<lfloor>p\<rfloor> = N" using pN pN1 by linarith
  have tr: "py_trunc p = N" using p0 fl by (simp add: py_trunc_def)
  have fq: "\<lfloor>q\<rfloor> = N" using q_ge q_lt by linarith
  have "(2::real) ^ 1000 \<le> 2 ^ 1024" by simp
  then have "p < 2 ^ 1024" using pN1 N2r by linarith
  then have ip: "\<not> is_inf p" using p0 by (simp add: is_inf_def)
  have "0 \<le> a * ?m" using a1 by (intro mult_nonneg_nonneg) simp_all
  then have d0: "0 \<le> d" using d_lo by linarith
  have "a * ?M \<le> a * 2" using a1 by (intro mult_left_mono) simp_all
  then have "d \<le> a * 2" using d_hi by linarith
  also have "\<dots> \<le> (of_int N + 1) * 4"
  proof -
    have "a * 2 = q * (40 / 19)" unfolding a by simp
    also have "\<dots> \<le> (of_int N + 1) * (40 / 19)"
      using q_lt by (intro mult_right_mono) simp_all
    also have "\<dots> \<le> (of_int N + 1) * 4"
      using N1r by (intro mult_left_mono) simp_all
    finally show ?thesis .
  qed
  also have "\<dots> \<le> 2 ^ 1000 * 4" using N2r by simp
  also have "\<dots> < (2::real) ^ 1024" by simp
  finally have idd: "\<not> is_inf d" using d0 by (simp add: is_inf_def)
  from idd ip tr fq show ?thesis by simp
qed

lemma lower_Auto: "lower ''Auto'' = ''auto''"
  by (simp add: lower_def lower_char_def)

lemma auto_config_get:
  "config_get (auto_config s) ''frame_measurement'' ''min_frames_per_interval'' = Inr ''Auto''"
  "config_get (auto_config s) ''frame_measurement'' ''interval'' = Inr s"
  by (simp_all add: auto_config_def config_get_def)

lemma auto_branch:
  assumes "config_get cfg ''frame_measurement'' ''min_frames_per_interval'' = Inr v"
    and "lower v = ''auto''"
    and "config_get cfg ''frame_measurement'' ''interval'' = Inr s"
    and "to_float s = Inr i"
    and "t \<noteq> 0"
  shows "get_min_frames_per_interval to_float cfg t =
     (if is_inf (round_double (i / t)) \<or>
         is_inf (round_double (round_double (i / t) * MIN_TICKS_PER_INTERVAL_AUTO_MULTIPLIER))
      then Inl OverflowError
      else Inr (py_trunc (round_double (round_double (i / t) * MIN_TICKS_PER_INTERVAL_AUTO_MULTIPLIER))))"
  using assms by (simp add: get_min_frames_per_interval_def Let_def)

text \<open>
  Claim C7, as the code has it. In auto mode (in any letter case) and with a tick that
  is not zero, \<open>get_min_frames_per_interval\<close> returns \<^verbatim>\<open>int\<close>, the truncation towards
  zero, of the double computed by rounding the quotient \<open>i / t\<close> and then the product
  with the double of 0.95. This is the floor of the exact value
  \<open>q = i / t * 95 / 100\<close> whenever \<open>q\<close> keeps a distance of \<open>q / 2 ^ 51\<close> from the integers
  around it: \<open>N \<le> q * (1 - 1 / 2 ^ 51)\<close> and \<open>q * (1 + 1 / 2 ^ 51) < N + 1\<close> for an integer
  \<open>N\<close> from 1 to below \<open>2 ^ 1000\<close>. In particular, for the interval 2 and a tick within
  \<open>1 / 10 ^ 8\<close> of 0.015 the threshold is 126.
\<close>

theorem auto_threshold:
  assumes v: "config_get cfg ''frame_measurement'' ''min_frames_per_interval'' = Inr v"
    and auto: "lower v = ''auto''"
    and s: "config_get cfg ''frame_measurement'' ''interval'' = Inr s"
    and i: "to_float s = Inr i"
    and q: "q = i / t * (95 / 100)"
  shows "(t \<noteq> 0 \<longrightarrow>
            get_min_frames_per_interval to_float cfg t =
              (if is_inf (round_double (i / t)) \<or>
                  is_inf (round_double
                    (round_double (i / t) * MIN_TICKS_PER_INTERVAL_AUTO_MULTIPLIER))
               then Inl OverflowError
               else Inr (py_trunc (round_double
                 (round_double (i / t) * MIN_TICKS_PER_INTERVAL_AUTO_MULTIPLIER))))) \<and>
         (\<forall>N. 1 \<le> N \<and> N < 2 ^ 1000 \<and> of_int N \<le> q * (1 - 1 / 2 ^ 51) \<and>
              q * (1 + 1 / 2 ^ 51) < of_int N + 1 \<longrightarrow>
            get_min_frames_per_interval to_float cfg t = Inr N \<and> \<lfloor>q\<rfloor> = N) \<and>
         (i = 2 \<and> \<bar>t - 15 / 1000\<bar> \<le> 1 / 10 ^ 8 \<longrightarrow>
            get_min_frames_per_interval to_float cfg t = Inr 126 \<and> \<lfloor>q\<rfloor> = 126)"
proof -
  have general: "get_min_frames_per_interval to_float cfg t = Inr N \<and> \<lfloor>q\<rfloor> = N"
    if N: "1 \<le> N" "N < 2 ^ 1000" "of_int N \<le> q * (1 - 1 / 2 ^ 51)"
      "q * (1 + 1 / 2 ^ 51) < of_int N + 1" for N
  proof -
    have "t \<noteq> 0"
    proof
      assume "t = 0"
      then have "q = 0" using q by simp
      with N(1,3) show False by simp
    qed
    from auto_branch [where to_float = to_float and s = s, OF v auto s i this] auto_value [OF N q]
    show ?thesis by simp
  qed
  have special: "get_min_frames_per_interval to_float cfg t = Inr 126 \<and> \<lfloor>q\<rfloor> = 126"
    if i2: "i = 2" and t: "\<bar>t - 15 / 1000\<bar> \<le> 1 / 10 ^ 8"
  proof -
    from t have t': "\<bar>t - 15 / 1000\<bar> \<le> 1 / 100000000" by simp
    then have t1: "1499999 / 100000000 \<le> t" and t2: "t \<le> 1500001 / 100000000"
      by linarith+
    then have tpos: "0 < t" by linarith
    have q': "q = (19 / 10) / t" using q i2 by simp
    have "(1265 / 10) * t \<le> 19 / 10" using t2 by linarith
    then have q1: "1265 / 10 \<le> q" unfolding q' using tpos by (simp add: pos_le_divide_eq)
    have "19 / 10 \<le> (1269 / 10) * t" using t1 by linarith
    then have q2: "q \<le> 1269 / 10" unfolding q' using tpos by (simp add: pos_divide_le_eq)
    have "(126::real) \<le> (1265 / 10) * (1 - 1 / 2 ^ 51)" by simp
    also have "\<dots> \<le> q * (1 - 1 / 2 ^ 51)" using q1 by (intro mult_right_mono) simp_all
    finally have lo: "of_int 126 \<le> q * (1 - 1 / 2 ^ 51)" by simp
    have "q * (1 + 1 / 2 ^ 51) \<le> (1269 / 10) * (1 + 1 / 2 ^ 51)"
      using q2 by (intro mult_right_mono) simp_all
    also have "\<dots> < 127" by simp
    finally have hi: "q * (1 + 1 / 2 ^ 51) < of_int 126 + 1" by simp
    show ?thesis by (rule general [OF _ _ lo hi]) simp_all
  qed
  from general special auto_branch [where to_float = to_float and s = s, OF v auto s i]
  show ?thesis by blast
qed

theorem auto_threshold_witness:
  "config_get (auto_config ''2.0'') ''frame_measurement'' ''min_frames_per_interval'' = Inr ''Auto'' \<and>
   lower ''Auto'' = ''auto'' \<and>
   config_get (auto_config ''2.0'') ''frame_measurement'' ''interval'' = Inr ''2.0'' \<and>
   example_float ''2.0'' = Inr 2 \<and>
   \<bar>16106127 / 2 ^ 30 - 15 / 1000\<bar> \<le> (1 / 10 ^ 8 :: real) \<and>
   (126 :: real) \<le> 2 / (16106127 / 2 ^ 30) * (95 / 100) * (1 - 1 / 2 ^ 51) \<and>
   2 / (16106127 / 2 ^ 30) * (95 / 100) * (1 + 1 / 2 ^ 51) < (127 :: real) \<and>
   get_min_frames_per_interval example_float (auto_config ''2.0'') (16106127 / 2 ^ 30) = Inr 126 \<and>
   \<lfloor>2 / (16106127 / 2 ^ 30) * (95 / 100) :: real\<rfloor> = 126"
proof -
  have f: "example_float ''2.0'' = Inr 2" by (simp add: example_float_def)
  have t: "\<bar>16106127 / 2 ^ 30 - 15 / 1000\<bar> \<le> (1 / 10 ^ 8 :: real)" by simp
  note th = auto_threshold [where to_float = example_float and s = "''2.0''"
      and t = "16106127 / 2 ^ 30", OF auto_config_get(1) lower_Auto auto_config_get(2) f refl]
  from th t have "get_min_frames_per_interval example_float (auto_config ''2.0'')
      (16106127 / 2 ^ 30) = Inr 126 \<and> \<lfloor>2 / (16106127 / 2 ^ 30) * (95 / 100) :: real\<rfloor> = 126"
    by blast
  moreover have "(126 :: real) \<le> 2 / (16106127 / 2 ^ 30) * (95 / 100) * (1 - 1 / 2 ^ 51)"
    by simp
  moreover have "2 / (16106127 / 2 ^ 30) * (95 / 100) * (1 + 1 / 2 ^ 51) < (127 :: real)"
    by simp
  ultimately show ?thesis using f t auto_config_get lower_Auto by simp
qed

text \<open>
  The claim that the threshold is the floor of the exact value fails where the exact
  value is next to an integer. With 64 ticks per second and the interval
  \<^verbatim>\<open>0.4276315789473684\<close> the exact value is just below 26, for the float as for the
  decimal number, and its floor is 25; the product rounds to 26.0 and the threshold
  is 26. With the interval 4.6 and the tick 0.01, both rounded to doubles, the exact
  value of the decimal numbers is 437 and the threshold is 436.
\<close>

theorem auto_threshold_rounding_counterexample:
  "example_float ''0.4276315789473684'' = Inr (7703525678396901 / 2 ^ 54) \<and>
   get_min_frames_per_interval example_float (auto_config ''0.4276315789473684'') (1 / 64) =
     Inr 26 \<and>
   \<lfloor>7703525678396901 / 2 ^ 54 / (1 / 64) * (95 / 100) :: real\<rfloor> = 25 \<and>
   \<lfloor>4276315789473684 / 10 ^ 16 / (1 / 64) * (95 / 100) :: real\<rfloor> = 25 \<and>
   example_float ''4.6'' = Inr (round_double (46 / 10)) \<and>
   get_min_frames_per_interval example_float (auto_config ''4.6'') (round_double (1 / 100)) =
     Inr 436 \<and>
   \<lfloor>46 / 10 / (1 / 100) * (95 / 100) :: real\<rfloor> = 437"
proof -
  have f1: "example_float ''0.4276315789473684'' = Inr (7703525678396901 / 2 ^ 54)"
    by (simp add: example_float_def)
  have f2: "example_float ''4.6'' = Inr (2589569785738035 / 2 ^ 49)"
    by (simp add: example_float_def)
  have t64: "(1 / 64 :: real) \<noteq> 0" by simp
  have a: "get_min_frames_per_interval example_float (auto_config ''0.4276315789473684'') (1 / 64) =
     Inr 26"
    unfolding auto_branch [where to_float = example_float and s = "''0.4276315789473684''",
        OF auto_config_get(1) lower_Auto auto_config_get(2) f1 t64]
      quotient_64 multiplier_value product_64
    by (simp add: is_inf_def py_trunc_def)
  have t0: "(5764607523034235 / 2 ^ 59 :: real) \<noteq> 0" by simp
  have b: "get_min_frames_per_interval example_float (auto_config ''4.6'')
      (5764607523034235 / 2 ^ 59) = Inr 436"
    unfolding auto_branch [where to_float = example_float and s = "''4.6''",
        OF auto_config_get(1) lower_Auto auto_config_get(2) f2 t0]
      quotient_100 multiplier_value product_100
    by (simp add: is_inf_def py_trunc_def)
  have c: "\<lfloor>7703525678396901 / 2 ^ 54 / (1 / 64) * (95 / 100) :: real\<rfloor> = 25"
    "\<lfloor>4276315789473684 / 10 ^ 16 / (1 / 64) * (95 / 100) :: real\<rfloor> = 25"
    "\<lfloor>46 / 10 / (1 / 100) * (95 / 100) :: real\<rfloor> = 437"
    by simp_all
  show ?thesis
    unfolding tick_100 interval_46 using f1 f2 a b c by (simp only: simp_thms)
qed

end
